theory Spec2Isabelle
  imports Complex_Main "HOL-Library.Char_ord" "HOL-Library.List_Lexorder"
begin

section \<open>Python values\<close>

text \<open>
  The module \<^verbatim>\<open>salt/modules/boto3_asg.py\<close> has one function with logic,
  \<^verbatim>\<open>get_config\<close>. It reads dynamically typed data that the provider returns and builds a
  dynamically typed record, so the values are modelled by one datatype. Python 3 is
  modelled (a \<^verbatim>\<open>dict\<close> keeps insertion order, values of different kinds do not compare).
  A string is a list of characters with code points below 256. A float is the rational
  number it stands for (floats that are not finite are not modelled). A dictionary is an
  association list in insertion order; its keys are strings.
\<close>

record pydatetime =
  year :: nat
  month :: nat
  day :: nat
  hour :: nat
  minute :: nat
  second :: nat
  microsecond :: nat

datatype pyval =
    PNone
  | PBool bool
  | PInt int
  | PFloat rat
  | PStr string
  | PDatetime pydatetime
  | PList "pyval list"
  | PDict "(string \<times> pyval) list"

type_synonym pydict = "(string \<times> pyval) list"

text \<open>
  The exceptions that the code can meet. \<^verbatim>\<open>boto.exception.BotoServerError\<close> carries the
  provider's error code (\<^verbatim>\<open>e.code\<close>), which may be missing.
\<close>

datatype exn =
    BotoServerError "string option"
  | KeyError string
  | TypeError
  | ValueError
  | AttributeError
  | OtherException string

subsection \<open>Truth value, subscription, iteration\<close>

text \<open>\<^verbatim>\<open>bool(v)\<close>, as \<^verbatim>\<open>if v:\<close> and \<^verbatim>\<open>not v\<close> use it.\<close>

fun truthy :: "pyval \<Rightarrow> bool" where
  "truthy PNone = False"
| "truthy (PBool b) = b"
| "truthy (PInt i) = (i \<noteq> 0)"
| "truthy (PFloat q) = (q \<noteq> 0)"
| "truthy (PStr s) = (s \<noteq> [])"
| "truthy (PDatetime t) = True"
| "truthy (PList xs) = (xs \<noteq> [])"
| "truthy (PDict d) = (d \<noteq> [])"

text \<open>\<^verbatim>\<open>d[k]\<close> on a dictionary: \<^verbatim>\<open>KeyError\<close> when the key is missing.\<close>

definition dict_getitem :: "pydict \<Rightarrow> string \<Rightarrow> exn + pyval" where
  "dict_getitem d k = (case map_of d k of None \<Rightarrow> Inl (KeyError k) | Some v \<Rightarrow> Inr v)"

text \<open>
  \<^verbatim>\<open>v[k]\<close> with a string \<^verbatim>\<open>k\<close> on any value: only a dictionary accepts a string
  subscript; strings and lists want integers, the other values are not subscriptable.
\<close>

fun getitem :: "pyval \<Rightarrow> string \<Rightarrow> exn + pyval" where
  "getitem (PDict d) k = dict_getitem d k"
| "getitem v k = Inl TypeError"

text \<open>
  \<^verbatim>\<open>d[k] = v\<close> on a dictionary that keeps insertion order: an existing key keeps its
  place, a new key goes to the end.
\<close>

fun setitem :: "pydict \<Rightarrow> string \<Rightarrow> pyval \<Rightarrow> pydict" where
  "setitem [] k v = [(k, v)]"
| "setitem (p # ps) k v = (if fst p = k then (k, v) # ps else p # setitem ps k v)"

text \<open>
  The elements that \<^verbatim>\<open>for x in v\<close> visits: the elements of a list, the characters of a
  string, the keys of a dictionary; the other values are not iterable.
\<close>

fun iterate :: "pyval \<Rightarrow> exn + pyval list" where
  "iterate (PList xs) = Inr xs"
| "iterate (PStr s) = Inr (map (\<lambda>c. PStr [c]) s)"
| "iterate (PDict d) = Inr (map (\<lambda>p. PStr (fst p)) d)"
| "iterate v = Inl TypeError"

subsection \<open>\<^verbatim>\<open>str.split\<close>\<close>

text \<open>
  \<^verbatim>\<open>s.split(sep)\<close> with a separator of one character: one piece more than there are
  separators, empty pieces kept.
\<close>

fun split_on :: "char \<Rightarrow> string \<Rightarrow> string list" where
  "split_on sep [] = [[]]"
| "split_on sep (c # cs) =
     (if c = sep then [] # split_on sep cs
      else (c # hd (split_on sep cs)) # tl (split_on sep cs))"

text \<open>\<^verbatim>\<open>v.split(",")\<close>: only a string has the method.\<close>

fun split_comma :: "pyval \<Rightarrow> exn + pyval" where
  "split_comma (PStr s) = Inr (PList (map PStr (split_on (CHR '','') s)))"
| "split_comma v = Inl AttributeError"

text \<open>\<^verbatim>\<open>sep.join(xs)\<close>, used to state what splitting keeps.\<close>

fun join :: "char \<Rightarrow> string list \<Rightarrow> string" where
  "join sep [] = []"
| "join sep [x] = x"
| "join sep (x # y # ys) = x @ sep # join sep (y # ys)"

subsection \<open>Comparison and \<^verbatim>\<open>sorted\<close>\<close>

fun is_num :: "pyval \<Rightarrow> bool" where
  "is_num (PBool b) = True"
| "is_num (PInt i) = True"
| "is_num (PFloat q) = True"
| "is_num v = False"

fun num_of :: "pyval \<Rightarrow> rat" where
  "num_of (PBool b) = (if b then 1 else 0)"
| "num_of (PInt i) = of_int i"
| "num_of (PFloat q) = q"
| "num_of v = 0"

text \<open>
  Two datetimes without time zone compare as the tuples of their fields.
\<close>

definition datetime_fields :: "pydatetime \<Rightarrow> nat list" where
  "datetime_fields t = [year t, month t, day t, hour t, minute t, second t, microsecond t]"

text \<open>
  \<^verbatim>\<open>a == b\<close>, which never raises: numbers (\<^verbatim>\<open>bool\<close>, \<^verbatim>\<open>int\<close>, \<^verbatim>\<open>float\<close>) are equal when
  their values are, lists when they are equal element by element, dictionaries when
  they have the same keys with equal values, and values of different kinds are not
  equal.
\<close>

fun eq_py :: "pyval \<Rightarrow> pyval \<Rightarrow> bool" where
  "eq_py PNone PNone = True"
| "eq_py (PStr a) (PStr b) = (a = b)"
| "eq_py (PDatetime a) (PDatetime b) = (datetime_fields a = datetime_fields b)"
| "eq_py (PList xs) (PList ys) = list_all2 eq_py xs ys"
| "eq_py (PDict a) (PDict b) =
     (list_all (\<lambda>k. k \<in> fst ` set a) (map fst b)
      \<and> list_all (\<lambda>p. case map_of b (fst p) of None \<Rightarrow> False | Some v \<Rightarrow> eq_py (snd p) v) a)"
| "eq_py a b = (is_num a \<and> is_num b \<and> num_of a = num_of b)"

text \<open>
  \<^verbatim>\<open>a < b\<close>. Strings compare by code points, lexicographically; numbers by value;
  datetimes by their fields; two lists at the first position where their elements are
  not equal, and by length when there is none. Every other pair of values is a
  \<^verbatim>\<open>TypeError\<close>, also \<^verbatim>\<open>None < None\<close> and two dictionaries.
\<close>

fun lt_py :: "pyval \<Rightarrow> pyval \<Rightarrow> exn + bool"
  and lt_list :: "pyval list \<Rightarrow> pyval list \<Rightarrow> exn + bool" where
  "lt_py (PStr a) (PStr b) = Inr (a < b)"
| "lt_py (PDatetime a) (PDatetime b) = Inr (datetime_fields a < datetime_fields b)"
| "lt_py (PList xs) (PList ys) = lt_list xs ys"
| "lt_py a b = (if is_num a \<and> is_num b then Inr (num_of a < num_of b) else Inl TypeError)"
| "lt_list [] [] = Inr False"
| "lt_list [] (y # ys) = Inr True"
| "lt_list (x # xs) [] = Inr False"
| "lt_list (x # xs) (y # ys) = (if eq_py x y then lt_list xs ys else lt_py x y)"

text \<open>
  \<^verbatim>\<open>sorted(xs)\<close> compares with \<^verbatim>\<open><\<close> only and is stable. A list of at most one element
  needs no comparison. The sort has to compare any two values that end up next to each
  other, and between two values that do not compare no third value fits, so the call
  raises \<^verbatim>\<open>TypeError\<close> exactly when two elements of the list do not compare. Otherwise
  the result does not depend on the algorithm; it is written here as an insertion
  sort that puts an element in front of the first one that is not smaller.
\<close>

fun comparable :: "pyval list \<Rightarrow> bool" where
  "comparable [] = True"
| "comparable (x # xs) = (list_all (\<lambda>y. lt_py x y \<noteq> Inl TypeError) xs \<and> comparable xs)"

fun insort_py :: "pyval \<Rightarrow> pyval list \<Rightarrow> pyval list" where
  "insort_py x [] = [x]"
| "insort_py x (y # ys) = (if lt_py y x = Inr True then y # insort_py x ys else x # y # ys)"

definition sorted_py :: "pyval list \<Rightarrow> exn + pyval list" where
  "sorted_py xs = (if comparable xs then Inr (foldr insort_py xs []) else Inl TypeError)"

subsection \<open>\<^verbatim>\<open>int\<close>\<close>

text \<open>
  \<^verbatim>\<open>int(v)\<close>. A number is truncated towards zero. A string is stripped of white space
  and must then be an optional sign and decimal digits, where single underscores may
  stand between digits; anything else is a \<^verbatim>\<open>ValueError\<close>. The other values are a
  \<^verbatim>\<open>TypeError\<close>. The white space that \<^verbatim>\<open>int\<close> strips is the blank and the characters
  9 to 13, and the two white-space characters above code point 127, which it first
  replaces by blanks; the separators 28 to 31 are not stripped. A string of more than
  4300 digits is refused (\<^verbatim>\<open>sys.int_info.default_max_str_digits\<close>).
\<close>

definition is_space :: "char \<Rightarrow> bool" where
  "is_space c \<longleftrightarrow> (of_char c :: nat) \<in> {9, 10, 11, 12, 13, 32, 133, 160}"

definition strip :: "string \<Rightarrow> string" where
  "strip s = rev (dropWhile is_space (rev (dropWhile is_space s)))"

definition is_digit :: "char \<Rightarrow> bool" where
  "is_digit c \<longleftrightarrow> 48 \<le> (of_char c :: nat) \<and> (of_char c :: nat) \<le> 57"

definition digit_value :: "char \<Rightarrow> int" where
  "digit_value c = int (of_char c) - 48"

definition valid_digits :: "string \<Rightarrow> bool" where
  "valid_digits b \<longleftrightarrow>
     b \<noteq> [] \<and> is_digit (hd b) \<and> is_digit (last b)
     \<and> list_all (\<lambda>c. is_digit c \<or> c = CHR ''_'') b
     \<and> list_all (\<lambda>p. \<not> (fst p = CHR ''_'' \<and> snd p = CHR ''_'')) (zip b (tl b))"

definition digits_value :: "string \<Rightarrow> int" where
  "digits_value b = foldl (\<lambda>acc c. 10 * acc + digit_value c) 0 (filter is_digit b)"

definition max_str_digits :: nat where
  "max_str_digits = 4300"

definition int_of_digits :: "string \<Rightarrow> exn + int" where
  "int_of_digits b =
     (if valid_digits b \<and> length (filter is_digit b) \<le> max_str_digits
      then Inr (digits_value b) else Inl ValueError)"

definition int_of_str :: "string \<Rightarrow> exn + int" where
  "int_of_str s =
     (case strip s of
        [] \<Rightarrow> Inl ValueError
      | c # cs \<Rightarrow>
          if c = CHR ''-'' then map_sum id uminus (int_of_digits cs)
          else if c = CHR ''+'' then int_of_digits cs
          else int_of_digits (c # cs))"

definition trunc_rat :: "rat \<Rightarrow> int" where
  "trunc_rat q = (if 0 \<le> q then \<lfloor>q\<rfloor> else \<lceil>q\<rceil>)"

fun int_py :: "pyval \<Rightarrow> exn + int" where
  "int_py (PBool b) = Inr (if b then 1 else 0)"
| "int_py (PInt i) = Inr i"
| "int_py (PFloat q) = Inr (trunc_rat q)"
| "int_py (PStr s) = int_of_str s"
| "int_py v = Inl TypeError"

subsection \<open>\<^verbatim>\<open>datetime.isoformat\<close>\<close>

text \<open>
  The decimal digits of a natural number, and \<^verbatim>\<open>%0wd\<close>: padded with zeros on the left
  to at least \<^verbatim>\<open>w\<close> characters.
\<close>

definition digit_char :: "nat \<Rightarrow> char" where
  "digit_char d = char_of (48 + d)"

fun decimal :: "nat \<Rightarrow> string" where
  "decimal n = (if n < 10 then [digit_char n] else decimal (n div 10) @ [digit_char (n mod 10)])"

declare decimal.simps [simp del]

definition zero_pad :: "nat \<Rightarrow> nat \<Rightarrow> string" where
  "zero_pad w n = replicate (w - length (decimal n)) (CHR ''0'') @ decimal n"

text \<open>
  \<^verbatim>\<open>t.isoformat()\<close> of a datetime without time zone (boto parses the provider's time
  stamps with \<^verbatim>\<open>strptime\<close>, which gives such): \<^verbatim>\<open>YYYY-MM-DDTHH:MM:SS\<close>, followed by
  \<^verbatim>\<open>.ffffff\<close> when the microseconds are not zero.
\<close>

definition isoformat :: "pydatetime \<Rightarrow> string" where
  "isoformat t =
     zero_pad 4 (year t) @ ''-'' @ zero_pad 2 (month t) @ ''-'' @ zero_pad 2 (day t) @ ''T''
     @ zero_pad 2 (hour t) @ '':'' @ zero_pad 2 (minute t) @ '':'' @ zero_pad 2 (second t)
     @ (if microsecond t \<noteq> 0 then ''.'' @ zero_pad 6 (microsecond t) else [])"

text \<open>\<^verbatim>\<open>v.isoformat()\<close> on any value: only a datetime has the method.\<close>

fun isoformat_py :: "pyval \<Rightarrow> exn + pyval" where
  "isoformat_py (PDatetime t) = Inr (PStr (isoformat t))"
| "isoformat_py v = Inl AttributeError"

section \<open>The provider and the effects of a call\<close>

text \<open>
  \<^verbatim>\<open>get_config\<close> talks to the provider through two clients: the boto3 client, whose
  paginator describes the group, and the boto connection, which lists the scaling
  policies and the scheduled actions. Each of the three operations is a parameter here:
  it reads the provider's state, answers with a result or raises, and leaves a new
  state. \<^verbatim>\<open>describe_auto_scaling_groups\<close> stands for the whole expression
  \<^verbatim>\<open>paginate(AutoScalingGroupNames=[name]).build_full_result()["AutoScalingGroups"]\<close>,
  a list of dictionaries.
\<close>

record scaling_policy =
  policy_name :: pyval
  policy_adjustment_type :: pyval
  policy_scaling_adjustment :: pyval
  policy_min_adjustment_step :: pyval
  policy_cooldown :: pyval

record scheduled_action =
  action_name :: string
  action_min_size :: pyval
  action_max_size :: pyval
  action_desired_capacity :: pyval
  action_start_time :: pyval
  action_end_time :: pyval
  action_recurrence :: pyval

record 's provider =
  describe_auto_scaling_groups :: "'s \<Rightarrow> string list \<Rightarrow> (exn + pydict list) \<times> 's"
  get_all_policies :: "'s \<Rightarrow> string \<Rightarrow> (exn + scaling_policy list) \<times> 's"
  get_all_scheduled_actions :: "'s \<Rightarrow> string \<Rightarrow> (exn + scheduled_action list) \<times> 's"

text \<open>
  What a call of \<^verbatim>\<open>get_config\<close> does besides returning: the provider operations it
  calls, \<^verbatim>\<open>time.sleep\<close> with its seconds, and the two log lines. The world is the
  provider's state and the events so far, oldest first.
\<close>

datatype event =
    Describe "string list"
  | GetAllPolicies string
  | GetAllScheduledActions string
  | Sleep nat
  | LogDebug
  | LogError exn

type_synonym 's world = "'s \<times> event list"

definition emit :: "event \<Rightarrow> 's world \<Rightarrow> 's world" where
  "emit ev w = (fst w, snd w @ [ev])"

definition call_describe ::
  "'s provider \<Rightarrow> string \<Rightarrow> 's world \<Rightarrow> (exn + pydict list) \<times> 's world" where
  "call_describe P name w =
     (case describe_auto_scaling_groups P (fst w) [name] of
        (r, s') \<Rightarrow> (r, emit (Describe [name]) (s', snd w)))"

definition call_policies ::
  "'s provider \<Rightarrow> string \<Rightarrow> 's world \<Rightarrow> (exn + scaling_policy list) \<times> 's world" where
  "call_policies P name w =
     (case get_all_policies P (fst w) name of
        (r, s') \<Rightarrow> (r, emit (GetAllPolicies name) (s', snd w)))"

definition call_actions ::
  "'s provider \<Rightarrow> string \<Rightarrow> 's world \<Rightarrow> (exn + scheduled_action list) \<times> 's world" where
  "call_actions P name w =
     (case get_all_scheduled_actions P (fst w) name of
        (r, s') \<Rightarrow> (r, emit (GetAllScheduledActions name) (s', snd w)))"

section \<open>\<^verbatim>\<open>get_config\<close>\<close>

text \<open>The lookup table of lines 119 to 136, in the order in which it is written.\<close>

definition attr_key_lookup :: "(string \<times> string) list" where
  "attr_key_lookup =
     [(''name'', ''AutoScalingGroupName''),
      (''availability_zones'', ''AvailabilityZones''),
      (''default_cooldown'', ''DefaultCooldown''),
      (''desired_capacity'', ''DesiredCapacity''),
      (''health_check_period'', ''HealthCheckGracePeriod''),
      (''health_check_type'', ''HealthCheckType''),
      (''launch_config_name'', ''LaunchConfigurationName''),
      (''load_balancers'', ''LoadBalancerNames''),
      (''max_size'', ''MaxSize''),
      (''min_size'', ''MinSize''),
      (''vpc_zone_identifier'', ''VPCZoneIdentifier''),
      (''tags'', ''Tags''),
      (''termination_policies'', ''TerminationPolicies''),
      (''suspended_processes'', ''SuspendedProcesses'')]"

text \<open>A loop that builds a list and stops at the first exception.\<close>

fun map_raise :: "('a \<Rightarrow> exn + 'b) \<Rightarrow> 'a list \<Rightarrow> exn + 'b list" where
  "map_raise f [] = Inr []"
| "map_raise f (x # xs) =
     (case f x of
        Inl e \<Rightarrow> Inl e
      | Inr y \<Rightarrow> (case map_raise f xs of Inl e \<Rightarrow> Inl e | Inr ys \<Rightarrow> Inr (y # ys)))"

text \<open>Lines 156 to 159: one tag of the provider as an ordered dictionary.\<close>

definition tag_entry :: "pyval \<Rightarrow> exn + pyval" where
  "tag_entry tag =
     (case getitem tag ''Key'' of
        Inl e \<Rightarrow> Inl e
      | Inr k \<Rightarrow>
          (case getitem tag ''Value'' of
             Inl e \<Rightarrow> Inl e
           | Inr v \<Rightarrow>
               (case getitem tag ''PropagateAtLaunch'' of
                  Inl e \<Rightarrow> Inl e
                | Inr p \<Rightarrow>
                    Inr (PDict [(''key'', k), (''value'', v), (''propagate_at_launch'', p)]))))"

text \<open>Lines 154 to 161: the list \<^verbatim>\<open>_tags\<close>.\<close>

definition tags_value :: "pyval \<Rightarrow> exn + pyval" where
  "tags_value v =
     (case iterate v of
        Inl e \<Rightarrow> Inl e
      | Inr ts \<Rightarrow> (case map_raise tag_entry ts of Inl e \<Rightarrow> Inl e | Inr ys \<Rightarrow> Inr (PList ys)))"

text \<open>Line 169: \<^verbatim>\<open>sorted([p["ProcessName"] for p in asg[keyname]])\<close>.\<close>

definition suspended_value :: "pyval \<Rightarrow> exn + pyval" where
  "suspended_value v =
     (case iterate v of
        Inl e \<Rightarrow> Inl e
      | Inr ps \<Rightarrow>
          (case map_raise (\<lambda>p. getitem p ''ProcessName'') ps of
             Inl e \<Rightarrow> Inl e
           | Inr names \<Rightarrow> (case sorted_py names of Inl e \<Rightarrow> Inl e | Inr ys \<Rightarrow> Inr (PList ys))))"

text \<open>
  Lines 153 to 174: the body of the loop over the lookup table, for one attribute. The
  result is \<^verbatim>\<open>ret\<close> after the step.
\<close>

definition copy_attr :: "pydict \<Rightarrow> string \<Rightarrow> string \<Rightarrow> pydict \<Rightarrow> exn + pydict" where
  "copy_attr asg attr keyname ret =
     (if attr = ''tags'' then
        (case dict_getitem asg keyname of
           Inl e \<Rightarrow> Inl e
         | Inr v \<Rightarrow> (case tags_value v of Inl e \<Rightarrow> Inl e | Inr t \<Rightarrow> Inr (setitem ret ''tags'' t)))
      else if attr = ''vpc_zone_identifier'' then
        (case dict_getitem asg keyname of
           Inl e \<Rightarrow> Inl e
         | Inr v \<Rightarrow> (case split_comma v of Inl e \<Rightarrow> Inl e | Inr z \<Rightarrow> Inr (setitem ret attr z)))
      else if attr = ''suspended_processes'' then
        (case dict_getitem asg keyname of
           Inl e \<Rightarrow> Inl e
         | Inr v \<Rightarrow> (case suspended_value v of Inl e \<Rightarrow> Inl e | Inr ps \<Rightarrow> Inr (setitem ret attr ps)))
      else if attr = ''placement_group'' then Inr ret
      else
        (case dict_getitem asg keyname of
           Inl e \<Rightarrow> Inl e
         | Inr v \<Rightarrow> Inr (setitem ret attr v)))"

text \<open>Lines 152 to 174: the loop over the items of a table, in their order.\<close>

fun copy_attrs :: "pydict \<Rightarrow> (string \<times> string) list \<Rightarrow> pydict \<Rightarrow> exn + pydict" where
  "copy_attrs asg [] ret = Inr ret"
| "copy_attrs asg (item # items) ret =
     (case copy_attr asg (fst item) (snd item) ret of
        Inl e \<Rightarrow> Inl e
      | Inr ret' \<Rightarrow> copy_attrs asg items ret')"

text \<open>Lines 181 to 187: one scaling policy as a dictionary.\<close>

definition policy_dict :: "scaling_policy \<Rightarrow> pyval" where
  "policy_dict policy =
     PDict [(''name'', policy_name policy),
            (''adjustment_type'', policy_adjustment_type policy),
            (''scaling_adjustment'', policy_scaling_adjustment policy),
            (''min_adjustment_step'', policy_min_adjustment_step policy),
            (''cooldown'', policy_cooldown policy)]"

text \<open>
  Lines 193 to 204: one scheduled action as a dictionary. Python evaluates the end time
  first, then the entries of the dictionary in their order, so that is the order in
  which the three conversions can raise.
\<close>

definition action_dict :: "scheduled_action \<Rightarrow> exn + pyval" where
  "action_dict action =
     (case (if truthy (action_end_time action) then isoformat_py (action_end_time action)
            else Inr PNone) of
        Inl e \<Rightarrow> Inl e
      | Inr end_time \<Rightarrow>
          (case int_py (action_desired_capacity action) of
             Inl e \<Rightarrow> Inl e
           | Inr c \<Rightarrow>
               (case isoformat_py (action_start_time action) of
                  Inl e \<Rightarrow> Inl e
                | Inr start_time \<Rightarrow>
                    Inr (PDict [(''min_size'', action_min_size action),
                                (''max_size'', action_max_size action),
                                (''desired_capacity'', PInt c),
                                (''start_time'', start_time),
                                (''end_time'', end_time),
                                (''recurrence'', action_recurrence action)]))))"

text \<open>
  Lines 192 to 204: the loop over the actions, which stores each dictionary under the
  action's name in the dictionary \<^verbatim>\<open>ret['scheduled_actions']\<close>.
\<close>

fun scheduled_actions :: "scheduled_action list \<Rightarrow> pydict \<Rightarrow> exn + pydict" where
  "scheduled_actions [] d = Inr d"
| "scheduled_actions (action # actions) d =
     (case action_dict action of
        Inl e \<Rightarrow> Inl e
      | Inr v \<Rightarrow> scheduled_actions actions (setitem d (action_name action) v))"

text \<open>Lines 143 to 148: the first group, or \<^verbatim>\<open>None\<close>.\<close>

definition first_group :: "pydict list \<Rightarrow> pydict option" where
  "first_group groups = (case groups of [] \<Rightarrow> None | g # gs \<Rightarrow> Some g)"

text \<open>
  Lines 141 to 205: the body of the \<^verbatim>\<open>try\<close> statement, one pass of the loop. It returns
  a record (\<^verbatim>\<open>{}\<close> at line 150, \<^verbatim>\<open>ret\<close> at line 205) or raises. \<^verbatim>\<open>not asg\<close> holds
  for \<^verbatim>\<open>None\<close> and for an empty dictionary. When the body raises, the record built
  so far is lost, so the two entries added at lines 178 and 191 are written here when
  their loops are done.
\<close>

definition try_body :: "'s provider \<Rightarrow> string \<Rightarrow> 's world \<Rightarrow> (exn + pydict) \<times> 's world" where
  "try_body P name w =
     (case call_describe P name w of
        (Inl e, w1) \<Rightarrow> (Inl e, w1)
      | (Inr groups, w1) \<Rightarrow>
          (case first_group groups of
             None \<Rightarrow> (Inr [], w1)
           | Some asg \<Rightarrow>
               if asg = [] then (Inr [], w1)
               else
                 (case copy_attrs asg attr_key_lookup [] of
                    Inl e \<Rightarrow> (Inl e, w1)
                  | Inr ret \<Rightarrow>
                      (case call_policies P name w1 of
                         (Inl e, w2) \<Rightarrow> (Inl e, w2)
                       | (Inr policies, w2) \<Rightarrow>
                           (case call_actions P name w2 of
                              (Inl e, w3) \<Rightarrow> (Inl e, w3)
                            | (Inr actions, w3) \<Rightarrow>
                                (case scheduled_actions actions [] of
                                   Inl e \<Rightarrow> (Inl e, w3)
                                 | Inr d \<Rightarrow>
                                     (Inr (setitem
                                            (setitem ret ''scaling_policies''
                                               (PList (map policy_dict policies)))
                                            ''scheduled_actions'' (PDict d)),
                                      w3)))))))"

text \<open>
  Lines 138 to 213: the loop. \<^verbatim>\<open>retries\<close> starts at 30 and only goes down while it is
  not zero, so it is a natural number. A \<^verbatim>\<open>BotoServerError\<close> with the code
  \<^verbatim>\<open>Throttling\<close> and retries left is logged, slept on and tried again; any other
  \<^verbatim>\<open>BotoServerError\<close> is logged and gives \<^verbatim>\<open>{}\<close>; any other exception leaves the
  function.
\<close>

fun get_config_loop ::
  "'s provider \<Rightarrow> string \<Rightarrow> nat \<Rightarrow> 's world \<Rightarrow> (exn + pydict) \<times> 's world" where
  "get_config_loop P name retries w =
     (case try_body P name w of
        (Inr ret, w') \<Rightarrow> (Inr ret, w')
      | (Inl (BotoServerError code), w') \<Rightarrow>
          if retries \<noteq> 0 \<and> code = Some ''Throttling''
          then get_config_loop P name (retries - 1) (emit (Sleep 5) (emit LogDebug w'))
          else (Inr [], emit (LogError (BotoServerError code)) w')
      | (Inl e, w') \<Rightarrow> (Inl e, w'))"

declare get_config_loop.simps [simp del]

definition get_config :: "'s provider \<Rightarrow> string \<Rightarrow> 's world \<Rightarrow> (exn + pydict) \<times> 's world" where
  "get_config P name w = get_config_loop P name 30 w"

section \<open>Scenarios\<close>

text \<open>How often a run slept and how often it called the describe operation.\<close>

fun is_sleep :: "event \<Rightarrow> bool" where
  "is_sleep (Sleep n) = True"
| "is_sleep ev = False"

fun is_describe :: "event \<Rightarrow> bool" where
  "is_describe (Describe names) = True"
| "is_describe ev = False"

definition sleeps :: "event list \<Rightarrow> nat" where
  "sleeps evs = length (filter is_sleep evs)"

definition describe_calls :: "event list \<Rightarrow> nat" where
  "describe_calls evs = length (filter is_describe evs)"

text \<open>
  The example of the specification: a group with two subnets, one tag and two suspended
  processes, no policy and one scheduled action, and the record that is expected.
\<close>

definition example_group :: pydict where
  "example_group =
     [(''AutoScalingGroupName'', PStr ''web-asg''),
      (''AvailabilityZones'', PList [PStr ''us-east-1a'']),
      (''DefaultCooldown'', PInt 300),
      (''DesiredCapacity'', PInt 4),
      (''HealthCheckGracePeriod'', PInt 0),
      (''HealthCheckType'', PStr ''EC2''),
      (''LaunchConfigurationName'', PStr ''web-lc''),
      (''LoadBalancerNames'', PList []),
      (''MaxSize'', PInt 10),
      (''MinSize'', PInt 2),
      (''VPCZoneIdentifier'', PStr ''subnet-a,subnet-b''),
      (''Tags'', PList [PDict [(''Key'', PStr ''env''), (''Value'', PStr ''prod''),
                               (''PropagateAtLaunch'', PBool True)]]),
      (''TerminationPolicies'', PList [PStr ''Default'']),
      (''SuspendedProcesses'', PList [PDict [(''ProcessName'', PStr ''Launch'')],
                                      PDict [(''ProcessName'', PStr ''AddToLoadBalancer'')]])]"

definition example_time :: pydatetime where
  "example_time = \<lparr>year = 2020, month = 1, day = 2, hour = 3, minute = 4, second = 5, microsecond = 0\<rparr>"

definition example_action :: scheduled_action where
  "example_action =
     \<lparr>action_name = ''nightly-scale'', action_min_size = PInt 1, action_max_size = PInt 5,
      action_desired_capacity = PStr ''3'', action_start_time = PDatetime example_time,
      action_end_time = PNone, action_recurrence = PStr ''0 2 * * *''\<rparr>"

definition example_provider :: "unit provider" where
  "example_provider =
     \<lparr>describe_auto_scaling_groups = (\<lambda>s names. (Inr [example_group], s)),
      get_all_policies = (\<lambda>s name. (Inr [], s)),
      get_all_scheduled_actions = (\<lambda>s name. (Inr [example_action], s))\<rparr>"

definition example_record :: pydict where
  "example_record =
     [(''name'', PStr ''web-asg''),
      (''availability_zones'', PList [PStr ''us-east-1a'']),
      (''default_cooldown'', PInt 300), (''desired_capacity'', PInt 4),
      (''health_check_period'', PInt 0),
      (''health_check_type'', PStr ''EC2''),
      (''launch_config_name'', PStr ''web-lc''),
      (''load_balancers'', PList []), (''max_size'', PInt 10),
      (''min_size'', PInt 2),
      (''vpc_zone_identifier'', PList [PStr ''subnet-a'', PStr ''subnet-b'']),
      (''tags'', PList [PDict [(''key'', PStr ''env''), (''value'', PStr ''prod''),
                               (''propagate_at_launch'', PBool True)]]),
      (''termination_policies'', PList [PStr ''Default'']),
      (''suspended_processes'', PList [PStr ''AddToLoadBalancer'', PStr ''Launch'']),
      (''scaling_policies'', PList []),
      (''scheduled_actions'',
        PDict [(''nightly-scale'',
           PDict [(''min_size'', PInt 1), (''max_size'', PInt 5),
             (''desired_capacity'', PInt 3),
             (''start_time'', PStr ''2020-01-02T03:04:05''),
             (''end_time'', PNone),
             (''recurrence'', PStr ''0 2 * * *'')])])]"

text \<open>
  A provider without state that always gives the same three answers, and the example
  group with one field replaced.
\<close>

definition stub_provider ::
  "pydict list \<Rightarrow> scaling_policy list \<Rightarrow> scheduled_action list \<Rightarrow> unit provider" where
  "stub_provider groups policies actions =
     \<lparr>describe_auto_scaling_groups = (\<lambda>s names. (Inr groups, s)),
      get_all_policies = (\<lambda>s name. (Inr policies, s)),
      get_all_scheduled_actions = (\<lambda>s name. (Inr actions, s))\<rparr>"

definition group_with :: "string \<Rightarrow> pyval \<Rightarrow> pydict" where
  "group_with key v = setitem example_group key v"

text \<open>
  One pass in which the provider answers the three calls, from the state \<open>s\<close> on: the
  describe call with the groups, then the two calls of the boto connection with the
  policies and the actions, which leaves the provider in the state \<open>s'\<close>.
\<close>

definition pass ::
  "'s provider \<Rightarrow> string \<Rightarrow> 's \<Rightarrow> pydict list \<Rightarrow> scaling_policy list \<Rightarrow> scheduled_action list
     \<Rightarrow> 's \<Rightarrow> bool" where
  "pass P name s groups policies actions s' \<longleftrightarrow>
     (case describe_auto_scaling_groups P s [name] of
        (r1, s1) \<Rightarrow> r1 = Inr groups \<and>
          (case get_all_policies P s1 name of
             (r2, s2) \<Rightarrow> r2 = Inr policies \<and>
               get_all_scheduled_actions P s2 name = (Inr actions, s')))"

text \<open>
  What the claims call an ISO-8601 string: \<^verbatim>\<open>YYYY-MM-DDTHH:MM:SS\<close>, with or without
  \<^verbatim>\<open>.ffffff\<close>, every letter but \<^verbatim>\<open>T\<close> a decimal digit. The fields of a Python
  \<^verbatim>\<open>datetime\<close> are in the ranges of \<open>valid_datetime\<close>.
\<close>

definition valid_datetime :: "pydatetime \<Rightarrow> bool" where
  "valid_datetime t \<longleftrightarrow>
     1 \<le> year t \<and> year t \<le> 9999 \<and> 1 \<le> month t \<and> month t \<le> 12 \<and>
     1 \<le> day t \<and> day t \<le> 31 \<and> hour t < 24 \<and> minute t < 60 \<and> second t < 60 \<and>
     microsecond t < 1000000"

definition digits_at :: "string \<Rightarrow> nat \<Rightarrow> nat \<Rightarrow> bool" where
  "digits_at s i w \<longleftrightarrow> list_all is_digit (take w (drop i s))"

definition iso8601 :: "string \<Rightarrow> bool" where
  "iso8601 s \<longleftrightarrow>
     19 \<le> length s
     \<and> digits_at s 0 4 \<and> s ! 4 = CHR ''-'' \<and> digits_at s 5 2 \<and> s ! 7 = CHR ''-''
     \<and> digits_at s 8 2 \<and> s ! 10 = CHR ''T''
     \<and> digits_at s 11 2 \<and> s ! 13 = CHR '':'' \<and> digits_at s 14 2 \<and> s ! 16 = CHR '':''
     \<and> digits_at s 17 2
     \<and> (length s = 19 \<or> (length s = 26 \<and> s ! 19 = CHR ''.'' \<and> digits_at s 20 6))"

text \<open>
  A second scheduled action with the name of the first, with a float as desired capacity
  and with an end time; the record that is expected when the provider returns both; and
  an action whose desired capacity is the string \<^verbatim>\<open>4.0\<close>.
\<close>

definition example_end_time :: pydatetime where
  "example_end_time =
     \<lparr>year = 2020, month = 12, day = 31, hour = 23, minute = 59, second = 59, microsecond = 1500\<rparr>"

definition example_action_later :: scheduled_action where
  "example_action_later =
     \<lparr>action_name = ''nightly-scale'', action_min_size = PInt 2, action_max_size = PInt 6,
      action_desired_capacity = PFloat 4, action_start_time = PDatetime example_time,
      action_end_time = PDatetime example_end_time, action_recurrence = PNone\<rparr>"


definition example_record_later :: pydict where
  "example_record_later =
     setitem example_record ''scheduled_actions''
       (PDict [(''nightly-scale'',
           PDict [(''min_size'', PInt 2), (''max_size'', PInt 6),
             (''desired_capacity'', PInt 4),
             (''start_time'', PStr ''2020-01-02T03:04:05''),
             (''end_time'', PStr ''2020-12-31T23:59:59.001500''),
             (''recurrence'', PNone)])])"

text \<open>
  The error with which the provider throttles, and the events of \<open>n\<close> passes that the
  describe call ended with it: the call, the debug line, the sleep of five seconds.
\<close>

definition throttling :: exn where
  "throttling = BotoServerError (Some ''Throttling'')"


text \<open>
  A pass, from the state \<open>s\<close> on, in which the describe call answers with a first group
  whose attributes are copied without error, and then the fetch of the scaling policies
  raises \<open>e\<close>, or this fetch answers and the fetch of the scheduled actions raises \<open>e\<close>.
  The provider is left in the state \<open>s'\<close>, and \<open>tr\<close> are the calls of the pass.
\<close>

definition fetch_raises ::
  "'s provider \<Rightarrow> string \<Rightarrow> 's \<Rightarrow> exn \<Rightarrow> 's \<Rightarrow> event list \<Rightarrow> bool" where
  "fetch_raises P name s e s' tr \<longleftrightarrow>
     (case describe_auto_scaling_groups P s [name] of
        (Inl e0, s1) \<Rightarrow> False
      | (Inr groups, s1) \<Rightarrow>
          (case groups of
             [] \<Rightarrow> False
           | asg # rest \<Rightarrow>
               asg \<noteq> [] \<and> \<not> isl (copy_attrs asg attr_key_lookup []) \<and>
               (case get_all_policies P s1 name of
                  (Inl e1, s2) \<Rightarrow>
                    e1 = e \<and> s2 = s' \<and> tr = [Describe [name], GetAllPolicies name]
                | (Inr policies, s2) \<Rightarrow>
                    get_all_scheduled_actions P s2 name = (Inl e, s') \<and>
                    tr = [Describe [name], GetAllPolicies name, GetAllScheduledActions name])))"

text \<open>
  A provider that fails a given number of times in each of its three operations, with
  the exception \<open>e\<close>, before it answers. Its state is the number of failures that each
  operation still has to give. And a provider whose describe operation always fails.
\<close>

definition flaky_provider ::
  "exn \<Rightarrow> pydict list \<Rightarrow> scaling_policy list \<Rightarrow> scheduled_action list
     \<Rightarrow> (nat \<times> nat \<times> nat) provider" where
  "flaky_provider e groups policies actions =
     \<lparr>describe_auto_scaling_groups =
        (\<lambda>s names. case s of (d, p, a) \<Rightarrow>
           if 0 < d then (Inl e, (d - 1, p, a)) else (Inr groups, (d, p, a))),
      get_all_policies =
        (\<lambda>s name. case s of (d, p, a) \<Rightarrow>
           if 0 < p then (Inl e, (d, p - 1, a)) else (Inr policies, (d, p, a))),
      get_all_scheduled_actions =
        (\<lambda>s name. case s of (d, p, a) \<Rightarrow>
           if 0 < a then (Inl e, (d, p, a - 1)) else (Inr actions, (d, p, a)))\<rparr>"



text \<open>Two more exceptions: a provider error that is not throttling, and a network error.\<close>

definition access_denied :: exn where
  "access_denied = BotoServerError (Some ''AccessDenied'')"

definition timed_out :: exn where
  "timed_out = OtherException ''timed out''"

section \<open>Facts about the building blocks\<close>

lemma map_of_setitem: "map_of (setitem d k v) = (map_of d)(k \<mapsto> v)"
  by (induction d) (auto simp: fun_eq_iff)

lemma setitem_fresh: "k \<notin> fst ` set d \<Longrightarrow> setitem d k v = d @ [(k, v)]"
  by (induction d) auto

lemma setitem_not_Nil: "setitem d k v \<noteq> []"
  by (cases d) auto

lemma copy_attrs_table:
  assumes "copy_attrs asg attr_key_lookup [] = Inr base"
  shows "\<exists>v1 v2 v3 v4 v5 v6 v7 v8 v9 v10 v11 v12 v13 v14 z t sp.
     dict_getitem asg ''AutoScalingGroupName'' = Inr v1 \<and>
     dict_getitem asg ''AvailabilityZones'' = Inr v2 \<and>
     dict_getitem asg ''DefaultCooldown'' = Inr v3 \<and>
     dict_getitem asg ''DesiredCapacity'' = Inr v4 \<and>
     dict_getitem asg ''HealthCheckGracePeriod'' = Inr v5 \<and>
     dict_getitem asg ''HealthCheckType'' = Inr v6 \<and>
     dict_getitem asg ''LaunchConfigurationName'' = Inr v7 \<and>
     dict_getitem asg ''LoadBalancerNames'' = Inr v8 \<and>
     dict_getitem asg ''MaxSize'' = Inr v9 \<and>
     dict_getitem asg ''MinSize'' = Inr v10 \<and>
     dict_getitem asg ''VPCZoneIdentifier'' = Inr v11 \<and> split_comma v11 = Inr z \<and>
     dict_getitem asg ''Tags'' = Inr v12 \<and> tags_value v12 = Inr t \<and>
     dict_getitem asg ''TerminationPolicies'' = Inr v13 \<and>
     dict_getitem asg ''SuspendedProcesses'' = Inr v14 \<and> suspended_value v14 = Inr sp \<and>
     base = [(''name'', v1), (''availability_zones'', v2), (''default_cooldown'', v3),
             (''desired_capacity'', v4), (''health_check_period'', v5),
             (''health_check_type'', v6), (''launch_config_name'', v7),
             (''load_balancers'', v8), (''max_size'', v9), (''min_size'', v10),
             (''vpc_zone_identifier'', z), (''tags'', t), (''termination_policies'', v13),
             (''suspended_processes'', sp)]"
  using assms
  by (auto simp: attr_key_lookup_def copy_attr_def split: sum.splits)

subsection \<open>The conversions raise no provider error\<close>

lemma dict_getitem_not_boto: "dict_getitem d k \<noteq> Inl (BotoServerError c)"
  by (simp add: dict_getitem_def split: option.splits)

lemma getitem_not_boto: "getitem v k \<noteq> Inl (BotoServerError c)"
  by (cases v) (simp_all add: dict_getitem_not_boto)

lemma iterate_not_boto: "iterate v \<noteq> Inl (BotoServerError c)"
  by (cases v) simp_all

lemma map_raise_not_boto:
  "(\<And>x. f x \<noteq> Inl (BotoServerError c)) \<Longrightarrow> map_raise f xs \<noteq> Inl (BotoServerError c)"
  by (induction xs) (auto split: sum.splits)

lemma tag_entry_not_boto: "tag_entry v \<noteq> Inl (BotoServerError c)"
  by (auto simp: tag_entry_def getitem_not_boto split: sum.splits)

lemma tags_value_not_boto: "tags_value v \<noteq> Inl (BotoServerError c)"
  using map_raise_not_boto [of tag_entry c] 
  by (auto simp: tags_value_def iterate_not_boto tag_entry_not_boto split: sum.splits)

lemma split_comma_not_boto: "split_comma v \<noteq> Inl (BotoServerError c)"
  by (cases v) simp_all

lemma sorted_py_not_boto: "sorted_py xs \<noteq> Inl (BotoServerError c)"
  by (simp add: sorted_py_def)

lemma process_names_not_boto:
  "map_raise (\<lambda>p. getitem p ''ProcessName'') ps \<noteq> Inl (BotoServerError c)"
  by (rule map_raise_not_boto) (rule getitem_not_boto)

lemma suspended_value_not_boto: "suspended_value v \<noteq> Inl (BotoServerError c)"
proof
  assume "suspended_value v = Inl (BotoServerError c)"
  then show False
    by (simp add: suspended_value_def iterate_not_boto process_names_not_boto sorted_py_not_boto
        split: sum.splits)
qed

lemma copy_attr_not_boto: "copy_attr asg attr keyname ret \<noteq> Inl (BotoServerError c)"
proof
  assume "copy_attr asg attr keyname ret = Inl (BotoServerError c)"
  then show False
    unfolding copy_attr_def
    by (simp add: dict_getitem_not_boto tags_value_not_boto split_comma_not_boto
        suspended_value_not_boto split: sum.splits if_splits)
qed

lemma copy_attrs_not_boto: "copy_attrs asg items ret \<noteq> Inl (BotoServerError c)"
proof (induction items arbitrary: ret)
  case Nil
  show ?case by simp
next
  case (Cons item items)
  show ?case
  proof
    assume "copy_attrs asg (item # items) ret = Inl (BotoServerError c)"
    then show False
      using Cons by (simp add: copy_attr_not_boto split: sum.splits)
  qed
qed

lemma int_of_digits_not_boto: "int_of_digits b \<noteq> Inl (BotoServerError c)"
  by (simp add: int_of_digits_def)

lemma int_py_not_boto: "int_py v \<noteq> Inl (BotoServerError c)"
  by (cases v)
     (auto simp: int_of_str_def int_of_digits_def map_sum_def split: list.splits sum.splits)

lemma isoformat_py_not_boto: "isoformat_py v \<noteq> Inl (BotoServerError c)"
  by (cases v) simp_all

lemma action_dict_not_boto: "action_dict a \<noteq> Inl (BotoServerError c)"
  by (auto simp: action_dict_def int_py_not_boto isoformat_py_not_boto
      split: sum.splits if_splits)

lemma scheduled_actions_not_boto: "scheduled_actions acts d \<noteq> Inl (BotoServerError c)"
  by (induction acts arbitrary: d) (auto simp: action_dict_not_boto split: sum.splits)

subsection \<open>One pass and the loop\<close>

lemma get_config_loop_fst:
  "fst (get_config_loop P name r w) =
     (case fst (try_body P name w) of
        Inr ret \<Rightarrow> Inr ret
      | Inl (BotoServerError code) \<Rightarrow>
          if r \<noteq> 0 \<and> code = Some ''Throttling''
          then fst (get_config_loop P name (r - 1) (emit (Sleep 5) (emit LogDebug (snd (try_body P name w)))))
          else Inr []
      | Inl e \<Rightarrow> Inl e)"
  by (subst get_config_loop.simps) (simp split: prod.splits sum.splits exn.splits)

lemma example_run:
  "get_config example_provider ''web-asg'' ((), []) =
     (Inr example_record,
      ((), [Describe [''web-asg''], GetAllPolicies ''web-asg'', GetAllScheduledActions ''web-asg'']))"
  by code_simp

lemma loop_result_from_try:
  "fst (get_config_loop P name r w) = Inr ret \<Longrightarrow> ret \<noteq> [] \<Longrightarrow>
     \<exists>w0. fst (try_body P name w0) = Inr ret"
proof (induction r arbitrary: w)
  case 0
  then have "fst (try_body P name w) = Inr ret"
    by (subst (asm) get_config_loop_fst) (simp split: sum.splits exn.splits)
  then show ?case by blast
next
  case (Suc r)
  from Suc.prems have
    "fst (try_body P name w) = Inr ret \<or> (\<exists>w'. fst (get_config_loop P name r w') = Inr ret)"
    by (subst (asm) get_config_loop_fst)
       (auto simp del: split_paired_Ex split: sum.splits exn.splits if_splits)
  with Suc.IH Suc.prems(2) show ?case by blast
qed

lemma assemble_keys:
  assumes "copy_attrs asg attr_key_lookup [] = Inr base"
  shows "setitem (setitem base ''scaling_policies'' p) ''scheduled_actions'' d =
           base @ [(''scaling_policies'', p), (''scheduled_actions'', d)]"
  using copy_attrs_table [OF assms] by auto

lemma try_body_result:
  assumes "fst (try_body P name w) = Inr ret" and "ret \<noteq> []"
  shows "\<exists>asg base pols d. copy_attrs asg attr_key_lookup [] = Inr base \<and>
     ret = base @ [(''scaling_policies'', PList (map policy_dict pols)),
                   (''scheduled_actions'', PDict d)]"
  using assms unfolding try_body_def
  by (fastforce simp: assemble_keys split: prod.splits sum.splits option.splits if_splits)

lemma try_body_keys:
  assumes "fst (try_body P name w) = Inr ret" and "ret \<noteq> []"
  shows "map fst ret =
     [''name'', ''availability_zones'', ''default_cooldown'', ''desired_capacity'',
      ''health_check_period'', ''health_check_type'', ''launch_config_name'',
      ''load_balancers'', ''max_size'', ''min_size'', ''vpc_zone_identifier'', ''tags'',
      ''termination_policies'', ''suspended_processes'', ''scaling_policies'',
      ''scheduled_actions'']"
proof -
  from try_body_result [OF assms] obtain asg base pols d where
    base: "copy_attrs asg attr_key_lookup [] = Inr base"
    and ret: "ret = base @ [(''scaling_policies'', PList (map policy_dict pols)),
                   (''scheduled_actions'', PDict d)]"
    by blast
  from copy_attrs_table [OF base] ret show ?thesis by auto
qed

lemma map_of_Some_not_Nil: "map_of d k = Some v \<Longrightarrow> d \<noteq> []"
  by auto

lemma process_names:
  "map (\<lambda>d. map_of d ''ProcessName'') ds = map (\<lambda>n. Some (PStr n)) names \<Longrightarrow>
   map_raise (\<lambda>p. getitem p ''ProcessName'') (map PDict ds) = Inr (map PStr names)"
proof (induction ds arbitrary: names)
  case Nil
  then show ?case by simp
next
  case (Cons d ds)
  then obtain n ns where names: "names = n # ns" by (cases names) auto
  with Cons.prems have "map_of d ''ProcessName'' = Some (PStr n)"
    and "map (\<lambda>d. map_of d ''ProcessName'') ds = map (\<lambda>n. Some (PStr n)) ns"
    by simp_all
  with Cons.IH [of ns] names show ?case
    by (simp add: dict_getitem_def)
qed

lemma comparable_strings: "comparable (map PStr names)"
  by (induction names) (simp_all add: list_all_iff)

lemma insort_py_strings: "insort_py (PStr n) (map PStr ns) = map PStr (insort n ns)"
  by (induction ns) auto

lemma foldr_insort_py_strings: "foldr insort_py (map PStr names) [] = map PStr (sort names)"
  by (induction names) (simp_all add: insort_py_strings)

lemma sorted_py_strings: "sorted_py (map PStr names) = Inr (map PStr (sort names))"
  by (simp add: sorted_py_def comparable_strings foldr_insort_py_strings)

lemma suspended_value_names:
  "map (\<lambda>d. map_of d ''ProcessName'') ds = map (\<lambda>n. Some (PStr n)) names \<Longrightarrow>
   suspended_value (PList (map PDict ds)) = Inr (PList (map PStr (sort names)))"
  by (simp add: suspended_value_def process_names sorted_py_strings)

lemma split_on_not_Nil: "split_on sep z \<noteq> []"
  by (induction z) simp_all

lemma split_on_no_sep: "sep \<notin> set x \<Longrightarrow> split_on sep x = [x]"
  by (induction x) auto

lemma split_on_append:
  "sep \<notin> set x \<Longrightarrow> split_on sep (x @ sep # r) = x # split_on sep r"
  by (induction x) auto

lemma split_join:
  "xs \<noteq> [] \<Longrightarrow> \<forall>x\<in>set xs. sep \<notin> set x \<Longrightarrow> split_on sep (join sep xs) = xs"
  by (induction sep xs rule: join.induct) (simp_all add: split_on_no_sep split_on_append)

lemma join_Cons: "ys \<noteq> [] \<Longrightarrow> join sep (x # ys) = x @ sep # join sep ys"
  by (cases ys) simp_all

lemma join_split: "join sep (split_on sep z) = z"
proof (induction z)
  case Nil
  show ?case by simp
next
  case (Cons c z)
  obtain w ws where ws: "split_on sep z = w # ws"
    using split_on_not_Nil [of sep z] by (cases "split_on sep z") auto
  show ?case
  proof (cases "c = sep")
    case True
    with Cons show ?thesis by (simp add: join_Cons split_on_not_Nil)
  next
    case False
    with Cons ws show ?thesis by (cases ws) simp_all
  qed
qed

lemma loop_last_pass:
  "get_config_loop P name r w = (Inr ret, w') \<Longrightarrow> ret \<noteq> [] \<Longrightarrow>
     \<exists>w0. try_body P name w0 = (Inr ret, w')"
proof (induction r arbitrary: w)
  case 0
  then have "try_body P name w = (Inr ret, w')"
    by (subst (asm) get_config_loop.simps)
       (simp split: prod.splits sum.splits exn.splits if_splits)
  then show ?case by blast
next
  case (Suc r)
  from Suc.prems have
    "try_body P name w = (Inr ret, w') \<or> (\<exists>w1. get_config_loop P name r w1 = (Inr ret, w'))"
    by (subst (asm) get_config_loop.simps)
       (auto simp del: split_paired_Ex split: prod.splits sum.splits exn.splits if_splits)
  with Suc.IH Suc.prems(2) show ?case by blast
qed

lemma try_body_pass:
  assumes "try_body P name w0 = (Inr ret, w')" and "ret \<noteq> []"
  shows "\<exists>asg rest policies actions base d.
     pass P name (fst w0) (asg # rest) policies actions (fst w') \<and> asg \<noteq> [] \<and>
     copy_attrs asg attr_key_lookup [] = Inr base \<and>
     scheduled_actions actions [] = Inr d \<and>
     ret = base @ [(''scaling_policies'', PList (map policy_dict policies)),
                   (''scheduled_actions'', PDict d)]"
  using assms unfolding try_body_def pass_def call_describe_def call_policies_def call_actions_def
    first_group_def emit_def
  by (auto simp: assemble_keys simp del: split_paired_Ex
      split: prod.splits sum.splits option.splits if_splits list.splits)

lemma get_config_last_pass:
  assumes "get_config P name w = (Inr ret, w')" and "ret \<noteq> []"
  shows "\<exists>s asg rest policies actions base d.
     pass P name s (asg # rest) policies actions (fst w') \<and> asg \<noteq> [] \<and>
     copy_attrs asg attr_key_lookup [] = Inr base \<and>
     scheduled_actions actions [] = Inr d \<and>
     ret = base @ [(''scaling_policies'', PList (map policy_dict policies)),
                   (''scheduled_actions'', PDict d)]"
proof -
  from assms obtain w0 where "try_body P name w0 = (Inr ret, w')"
    unfolding get_config_def using loop_last_pass by blast
  from try_body_pass [OF this assms(2)] show ?thesis by blast
qed

lemma pass_stub:
  "pass (stub_provider groups policies actions) name s gs ps as s' \<longleftrightarrow>
     gs = groups \<and> ps = policies \<and> as = actions"
  by (auto simp: pass_def stub_provider_def)

lemma pass_example:
  "pass example_provider name s gs ps as s' \<longleftrightarrow>
     gs = [example_group] \<and> ps = [] \<and> as = [example_action]"
  by (auto simp: pass_def example_provider_def)

lemma dict_getitem_Inr: "dict_getitem d k = Inr v \<Longrightarrow> map_of d k = Some v"
  by (simp add: dict_getitem_def split: option.splits)

lemma split_comma_Inr:
  "split_comma v = Inr x \<Longrightarrow> \<exists>z. v = PStr z \<and> x = PList (map PStr (split_on (CHR '','') z))"
  by (cases v) auto

lemma last_pass_vpc:
  assumes "get_config P name w = (Inr ret, w')" and "ret \<noteq> []"
  shows "\<exists>s asg rest policies actions z.
     pass P name s (asg # rest) policies actions (fst w') \<and>
     map_of asg ''VPCZoneIdentifier'' = Some (PStr z) \<and>
     map_of ret ''vpc_zone_identifier'' = Some (PList (map PStr (split_on (CHR '','') z)))"
proof -
  from get_config_last_pass [OF assms] obtain s asg rest policies actions base d where
    p: "pass P name s (asg # rest) policies actions (fst w')"
    and base: "copy_attrs asg attr_key_lookup [] = Inr base"
    and ret: "ret = base @ [(''scaling_policies'', PList (map policy_dict policies)),
                   (''scheduled_actions'', PDict d)]"
    by blast
  from copy_attrs_table [OF base] obtain v x where
    v: "dict_getitem asg ''VPCZoneIdentifier'' = Inr v" and x: "split_comma v = Inr x"
    and entry: "map_of base ''vpc_zone_identifier'' = Some x"
    by auto
  from split_comma_Inr [OF x] obtain z where
    z: "v = PStr z" "x = PList (map PStr (split_on (CHR '','') z))"
    by blast
  from entry ret z have
    "map_of ret ''vpc_zone_identifier'' = Some (PList (map PStr (split_on (CHR '','') z)))"
    by (simp add: map_add_def)
  with p dict_getitem_Inr [OF v] z(1) show ?thesis by blast
qed

lemma count_list_insort: "count_list (insort x xs) n = count_list (x # xs) n"
  by (induction xs) auto

lemma count_list_sort: "count_list (sort xs) n = count_list xs n"
  by (induction xs) (simp_all add: count_list_insort)

lemma last_pass_suspended:
  assumes "get_config P name w = (Inr ret, w')" and "ret \<noteq> []"
  shows "\<exists>s asg rest policies actions v sp.
     pass P name s (asg # rest) policies actions (fst w') \<and>
     map_of asg ''SuspendedProcesses'' = Some v \<and> suspended_value v = Inr sp \<and>
     map_of ret ''suspended_processes'' = Some sp"
proof -
  from get_config_last_pass [OF assms] obtain s asg rest policies actions base d where
    p: "pass P name s (asg # rest) policies actions (fst w')"
    and base: "copy_attrs asg attr_key_lookup [] = Inr base"
    and ret: "ret = base @ [(''scaling_policies'', PList (map policy_dict policies)),
                   (''scheduled_actions'', PDict d)]"
    by blast
  from copy_attrs_table [OF base] obtain v sp where
    v: "dict_getitem asg ''SuspendedProcesses'' = Inr v" and sp: "suspended_value v = Inr sp"
    and entry: "map_of base ''suspended_processes'' = Some sp"
    by auto
  from entry ret have "map_of ret ''suspended_processes'' = Some sp"
    by (simp add: map_add_def)
  with p dict_getitem_Inr [OF v] sp show ?thesis by blast
qed

lemma copy_attrs_native_list:
  assumes "map_of asg ''VPCZoneIdentifier'' = Some (PList xs)"
  shows "\<exists>e. copy_attrs asg attr_key_lookup [] = Inl e
     \<and> (e = AttributeError \<or> (\<exists>k. e = KeyError k \<and> map_of asg k = None))
     \<and> (list_all (\<lambda>k. map_of asg k \<noteq> None) (map snd (take 10 attr_key_lookup))
          \<longrightarrow> e = AttributeError)
     \<and> (\<not> list_all (\<lambda>k. map_of asg k \<noteq> None) (map snd (take 10 attr_key_lookup))
          \<longrightarrow> (\<exists>k. e = KeyError k \<and> map_of asg k = None))"
  using assms
  by (auto simp: attr_key_lookup_def copy_attr_def dict_getitem_def split: option.splits)

lemma get_config_loop_raise:
  assumes "describe_auto_scaling_groups P s [name] = (Inr (asg # rest), s1)" and "asg \<noteq> []"
    and "copy_attrs asg attr_key_lookup [] = Inl e"
  shows "get_config_loop P name r (s, evs) = (Inl e, (s1, evs @ [Describe [name]]))"
proof -
  from assms have "try_body P name (s, evs) = (Inl e, (s1, evs @ [Describe [name]]))"
    by (simp add: try_body_def call_describe_def first_group_def emit_def)
  moreover from assms(3) have "\<forall>c. e \<noteq> BotoServerError c"
    using copy_attrs_not_boto [of asg attr_key_lookup "[]"] by auto
  ultimately show ?thesis
    by (subst get_config_loop.simps) (cases e; simp)
qed

subsection \<open>Scheduled actions\<close>

lemma action_dict_result:
  assumes "action_dict a = Inr v"
  shows "\<exists>c ts. int_py (action_desired_capacity a) = Inr c \<and>
           action_start_time a = PDatetime ts \<and>
           (truthy (action_end_time a) \<longrightarrow> (\<exists>te. action_end_time a = PDatetime te)) \<and>
           v = PDict [(''min_size'', action_min_size a),
                      (''max_size'', action_max_size a),
                      (''desired_capacity'', PInt c),
                      (''start_time'', PStr (isoformat ts)),
                      (''end_time'', case action_end_time a of
                                       PDatetime te \<Rightarrow> PStr (isoformat te) | _ \<Rightarrow> PNone),
                      (''recurrence'', action_recurrence a)]"
proof -
  from assms obtain e c st where
    e: "(if truthy (action_end_time a) then isoformat_py (action_end_time a) else Inr PNone) = Inr e"
    and c: "int_py (action_desired_capacity a) = Inr c"
    and st: "isoformat_py (action_start_time a) = Inr st"
    and v: "v = PDict [(''min_size'', action_min_size a), (''max_size'', action_max_size a),
                      (''desired_capacity'', PInt c), (''start_time'', st), (''end_time'', e),
                      (''recurrence'', action_recurrence a)]"
    unfolding action_dict_def by (auto split: sum.splits)
  from st obtain ts where ts: "action_start_time a = PDatetime ts" "st = PStr (isoformat ts)"
    by (cases "action_start_time a") auto
  from e have e': "e = (case action_end_time a of PDatetime te \<Rightarrow> PStr (isoformat te) | _ \<Rightarrow> PNone)"
    and tr: "truthy (action_end_time a) \<longrightarrow> (\<exists>te. action_end_time a = PDatetime te)"
    by (cases "action_end_time a"; auto split: if_splits)+
  from c ts e' tr v show ?thesis by blast
qed

lemma find_app:
  "find P (xs @ ys) = (case find P xs of Some b \<Rightarrow> Some b | None \<Rightarrow> find P ys)"
  by (induction xs) simp_all

lemma scheduled_actions_lookup:
  "scheduled_actions acts d0 = Inr d \<Longrightarrow>
   map_of d n =
     (case find (\<lambda>a. action_name a = n) (rev acts) of
        None \<Rightarrow> map_of d0 n
      | Some a \<Rightarrow> (case action_dict a of Inl e \<Rightarrow> None | Inr v \<Rightarrow> Some v))"
proof (induction acts arbitrary: d0)
  case Nil
  then show ?case by simp
next
  case (Cons a acts)
  from Cons.prems obtain v where v: "action_dict a = Inr v"
    and rest: "scheduled_actions acts (setitem d0 (action_name a) v) = Inr d"
    by (auto split: sum.splits)
  from Cons.IH [OF rest] v show ?case
    by (auto simp: find_app map_of_setitem split: option.splits)
qed

lemma scheduled_actions_all:
  "scheduled_actions acts d0 = Inr d \<Longrightarrow> a \<in> set acts \<Longrightarrow> \<exists>v. action_dict a = Inr v"
  by (induction acts arbitrary: d0) (auto split: sum.splits)

lemma find_SomeD: "find P xs = Some b \<Longrightarrow> b \<in> set xs \<and> P b"
  by (induction xs) (auto split: if_splits)


lemma find_NoneD: "find P xs = None \<Longrightarrow> x \<in> set xs \<Longrightarrow> \<not> P x"
  by (induction xs) (auto split: if_splits)

lemma scheduled_actions_keys:
  assumes "scheduled_actions acts [] = Inr d"
  shows "(map_of d m = None) = (m \<notin> action_name ` set acts)"
proof (cases "find (\<lambda>a. action_name a = m) (rev acts)")
  case None
  with scheduled_actions_lookup [OF assms, of m] have "map_of d m = None" by simp
  moreover from None have "m \<notin> action_name ` set acts"
    using find_NoneD [of "\<lambda>a. action_name a = m" "rev acts"] by auto
  ultimately show ?thesis by simp
next
  case (Some a)
  from find_SomeD [OF Some] have a: "a \<in> set acts" "action_name a = m" by simp_all
  from scheduled_actions_all [OF assms a(1)] obtain v where "action_dict a = Inr v" by blast
  with scheduled_actions_lookup [OF assms, of m] Some have "map_of d m = Some v" by simp
  with a show ?thesis by auto
qed

lemma last_pass_actions:
  assumes "get_config P name w = (Inr ret, w')" and "ret \<noteq> []"
  shows "\<exists>s asg rest policies actions d.
     pass P name s (asg # rest) policies actions (fst w') \<and>
     scheduled_actions actions [] = Inr d \<and>
     map_of ret ''scheduled_actions'' = Some (PDict d)"
proof -
  from get_config_last_pass [OF assms] obtain s asg rest policies actions base d where
    p: "pass P name s (asg # rest) policies actions (fst w')"
    and base: "copy_attrs asg attr_key_lookup [] = Inr base"
    and d: "scheduled_actions actions [] = Inr d"
    and ret: "ret = base @ [(''scaling_policies'', PList (map policy_dict policies)),
                   (''scheduled_actions'', PDict d)]"
    by blast
  from copy_attrs_table [OF base] ret have "map_of ret ''scheduled_actions'' = Some (PDict d)"
    by auto
  with p d show ?thesis by blast
qed

lemma example_run_later:
  "get_config (stub_provider [example_group] [] [example_action, example_action_later])
      ''web-asg'' ((), []) =
     (Inr example_record_later,
      ((), [Describe [''web-asg''], GetAllPolicies ''web-asg'', GetAllScheduledActions ''web-asg'']))"
  by code_simp

subsection \<open>\<^verbatim>\<open>int\<close> and \<^verbatim>\<open>isoformat\<close>\<close>

lemma of_char_digit_char: "d < 10 \<Longrightarrow> (of_char (digit_char d) :: nat) = 48 + d"
  by (simp add: digit_char_def)

lemma is_digit_digit_char: "d < 10 \<Longrightarrow> is_digit (digit_char d)"
  by (simp add: is_digit_def of_char_digit_char)



lemma decimal_digits: "list_all is_digit (decimal n)"
proof (induction n rule: decimal.induct)
  case (1 n)
  show ?case
  proof (cases "n < 10")
    case True
    then show ?thesis by (subst decimal.simps) (simp add: is_digit_digit_char)
  next
    case False
    with 1 show ?thesis by (subst decimal.simps) (simp add: is_digit_digit_char)
  qed
qed











lemma length_decimal: "n < 10 ^ w \<Longrightarrow> 0 < w \<Longrightarrow> length (decimal n) \<le> w"
proof (induction n arbitrary: w rule: decimal.induct)
  case (1 n)
  show ?case
  proof (cases "n < 10")
    case True
    with 1 show ?thesis by (subst decimal.simps) simp
  next
    case False
    from "1.prems" obtain v where w: "w = Suc v" by (cases w) auto
    with False "1.prems" have v: "0 < v" by (cases v) auto
    from "1.prems" w have "n div 10 < 10 ^ v"
      by (simp add: less_mult_imp_div_less mult.commute)
    with "1.IH" [OF False this v] False w show ?thesis
      by (subst decimal.simps) simp
  qed
qed

lemma zero_pad_length: "n < 10 ^ w \<Longrightarrow> 0 < w \<Longrightarrow> length (zero_pad w n) = w"
  using length_decimal [of n w] by (simp add: zero_pad_def)

lemma is_digit_zero: "is_digit (CHR ''0'')"
  by (simp add: is_digit_def)

lemma zero_pad_digits: "list_all is_digit (zero_pad w n)"
  using decimal_digits [of n]
  by (auto simp: zero_pad_def list_all_iff is_digit_zero)

lemma iso8601_build:
  assumes "length Y = 4" "length M = 2" "length D = 2" "length h = 2" "length m = 2"
    "length sec = 2"
    and "list_all is_digit Y" "list_all is_digit M" "list_all is_digit D" "list_all is_digit h"
    "list_all is_digit m" "list_all is_digit sec"
    and "fr = [] \<or> (\<exists>f. fr = CHR ''.'' # f \<and> length f = 6 \<and> list_all is_digit f)"
  shows "iso8601 (Y @ ''-'' @ M @ ''-'' @ D @ ''T'' @ h @ '':'' @ m @ '':'' @ sec @ fr)"
proof -
  from assms(1) obtain y1 y2 y3 y4 where Y: "Y = [y1, y2, y3, y4]"
    by (auto simp: length_Suc_conv numeral_eq_Suc)
  from assms(2) obtain m1 m2 where M: "M = [m1, m2]"
    by (auto simp: length_Suc_conv numeral_eq_Suc)
  from assms(3) obtain d1 d2 where D: "D = [d1, d2]"
    by (auto simp: length_Suc_conv numeral_eq_Suc)
  from assms(4) obtain h1 h2 where h: "h = [h1, h2]"
    by (auto simp: length_Suc_conv numeral_eq_Suc)
  from assms(5) obtain n1 n2 where m: "m = [n1, n2]"
    by (auto simp: length_Suc_conv numeral_eq_Suc)
  from assms(6) obtain s1 s2 where sec: "sec = [s1, s2]"
    by (auto simp: length_Suc_conv numeral_eq_Suc)
  from assms(13) show ?thesis
  proof
    assume "fr = []"
    with assms(7-12) show ?thesis
      unfolding Y M D h m sec by (simp add: iso8601_def digits_at_def)
  next
    assume "\<exists>f. fr = CHR ''.'' # f \<and> length f = 6 \<and> list_all is_digit f"
    then obtain f where f: "fr = CHR ''.'' # f" "length f = 6" "list_all is_digit f" by blast
    with assms(7-12) show ?thesis
      unfolding Y M D h m sec by (simp add: iso8601_def digits_at_def)
  qed
qed

lemma isoformat_iso8601:
  assumes "valid_datetime t"
  shows "iso8601 (isoformat t)"
proof -
  from assms have l: "length (zero_pad 4 (year t)) = 4" "length (zero_pad 2 (month t)) = 2"
    "length (zero_pad 2 (day t)) = 2" "length (zero_pad 2 (hour t)) = 2"
    "length (zero_pad 2 (minute t)) = 2" "length (zero_pad 2 (second t)) = 2"
    "length (zero_pad 6 (microsecond t)) = 6"
    by (simp_all add: valid_datetime_def zero_pad_length)
  have "iso8601 (zero_pad 4 (year t) @ ''-'' @ zero_pad 2 (month t) @ ''-'' @ zero_pad 2 (day t)
     @ ''T'' @ zero_pad 2 (hour t) @ '':'' @ zero_pad 2 (minute t) @ '':'' @ zero_pad 2 (second t)
     @ (if microsecond t \<noteq> 0 then ''.'' @ zero_pad 6 (microsecond t) else []))"
    by (rule iso8601_build) (simp_all add: l zero_pad_digits)
  then show ?thesis by (simp add: isoformat_def)
qed





subsection \<open>What the handler does with an exception\<close>

lemma get_config_loop_return:
  "try_body P name w = (Inr ret, w') \<Longrightarrow> get_config_loop P name r w = (Inr ret, w')"
  by (subst get_config_loop.simps) simp

lemma get_config_loop_retry:
  "try_body P name w = (Inl throttling, w') \<Longrightarrow>
   get_config_loop P name (Suc r) w =
     get_config_loop P name r (fst w', snd w' @ [LogDebug, Sleep 5])"
  by (subst get_config_loop.simps) (simp add: throttling_def emit_def)

lemma get_config_loop_give_up:
  "try_body P name w = (Inl (BotoServerError code), w') \<Longrightarrow>
   r = 0 \<or> code \<noteq> Some ''Throttling'' \<Longrightarrow>
   get_config_loop P name r w =
     (Inr [], (fst w', snd w' @ [LogError (BotoServerError code)]))"
  by (subst get_config_loop.simps) (auto simp: emit_def)

lemma get_config_loop_propagate:
  "try_body P name w = (Inl e, w') \<Longrightarrow> \<forall>code. e \<noteq> BotoServerError code \<Longrightarrow>
   get_config_loop P name r w = (Inl e, w')"
  by (subst get_config_loop.simps) (cases e; simp)

lemma try_body_describe_raises:
  "describe_auto_scaling_groups P s [name] = (Inl e, s') \<Longrightarrow>
   try_body P name (s, evs) = (Inl e, (s', evs @ [Describe [name]]))"
  by (simp add: try_body_def call_describe_def emit_def)

lemma try_body_fetch_raises:
  "fetch_raises P name s e s' tr \<Longrightarrow> try_body P name (s, evs) = (Inl e, (s', evs @ tr))"
  unfolding fetch_raises_def try_body_def call_describe_def call_policies_def call_actions_def
    first_group_def emit_def
  by (auto split: prod.splits sum.splits list.splits)


lemma try_body_events:
  "\<exists>es. snd (snd (try_body P name w)) = snd w @ Describe [name] # es
        \<and> list_all (\<lambda>ev. \<not> is_sleep ev) es"
  unfolding try_body_def call_describe_def call_policies_def call_actions_def emit_def
  by (auto split: prod.splits sum.splits option.splits)



lemma sleeps_no_sleep: "list_all (\<lambda>ev. \<not> is_sleep ev) es \<Longrightarrow> sleeps es = 0"
  by (induction es) (simp_all add: sleeps_def)

lemma get_config_loop_outcome:
  assumes tb: "try_body P name w = (x, w1)"
  shows "snd (get_config_loop P name r w) = w1
     \<or> (\<exists>e. snd (get_config_loop P name r w) = (fst w1, snd w1 @ [LogError e]))
     \<or> (\<exists>r'. r = Suc r' \<and>
           get_config_loop P name r w =
             get_config_loop P name r' (fst w1, snd w1 @ [LogDebug, Sleep 5]))"
proof (cases x)
  case (Inr ret)
  with tb show ?thesis by (simp add: get_config_loop_return)
next
  case (Inl e)
  show ?thesis
  proof (cases "\<exists>code. e = BotoServerError code")
    case False
    with tb Inl show ?thesis by (simp add: get_config_loop_propagate)
  next
    case True
    then obtain code where code: "e = BotoServerError code" by blast
    show ?thesis
    proof (cases "r = 0 \<or> code \<noteq> Some ''Throttling''")
      case True
      from tb Inl code have "try_body P name w = (Inl (BotoServerError code), w1)" by simp
      from get_config_loop_give_up [OF this True] show ?thesis by simp
    next
      case False
      then obtain r' where r: "r = Suc r'" and c: "code = Some ''Throttling''"
        by (cases r) auto
      from tb Inl code c have "try_body P name w = (Inl throttling, w1)"
        by (simp add: throttling_def)
      from get_config_loop_retry [OF this] r show ?thesis by simp
    qed
  qed
qed

lemma get_config_loop_events:
  "\<exists>es. snd (snd (get_config_loop P name r w)) = snd w @ Describe [name] # es \<and> sleeps es \<le> r"
proof (induction r arbitrary: w)
  case 0
  obtain x w1 where tb: "try_body P name w = (x, w1)"
    by (cases "try_body P name w") blast
  with try_body_events [of P name w] obtain es where
    es: "snd w1 = snd w @ Describe [name] # es" and ns: "sleeps es = 0"
    by (auto simp: sleeps_no_sleep)
  from get_config_loop_outcome [OF tb, of 0] consider
    (ret) "snd (get_config_loop P name 0 w) = w1"
    | (err) e where "snd (get_config_loop P name 0 w) = (fst w1, snd w1 @ [LogError e])"
    by auto
  then show ?case
  proof cases
    case ret
    with es ns show ?thesis by simp
  next
    case err
    then have "snd (snd (get_config_loop P name 0 w)) = snd w @ Describe [name] # (es @ [LogError e])"
      using es by simp
    moreover have "sleeps (es @ [LogError e]) \<le> 0"
      using ns by (simp add: sleeps_def)
    ultimately show ?thesis by blast
  qed
next
  case (Suc r)
  obtain x w1 where tb: "try_body P name w = (x, w1)"
    by (cases "try_body P name w") blast
  with try_body_events [of P name w] obtain es where
    es: "snd w1 = snd w @ Describe [name] # es" and ns: "sleeps es = 0"
    by (auto simp: sleeps_no_sleep)
  from get_config_loop_outcome [OF tb, of "Suc r"] consider
    (ret) "snd (get_config_loop P name (Suc r) w) = w1"
    | (err) e where "snd (get_config_loop P name (Suc r) w) = (fst w1, snd w1 @ [LogError e])"
    | (again) "get_config_loop P name (Suc r) w =
            get_config_loop P name r (fst w1, snd w1 @ [LogDebug, Sleep 5])"
    by auto
  then show ?case
  proof cases
    case ret
    with es ns show ?thesis by simp
  next
    case err
    then have "snd (snd (get_config_loop P name (Suc r) w)) = snd w @ Describe [name] # (es @ [LogError e])"
      using es by simp
    moreover have "sleeps (es @ [LogError e]) \<le> Suc r"
      using ns by (simp add: sleeps_def)
    ultimately show ?thesis by blast
  next
    case again
    from Suc.IH [of "(fst w1, snd w1 @ [LogDebug, Sleep 5])"] obtain es2 where
      es2: "snd (snd (get_config_loop P name r (fst w1, snd w1 @ [LogDebug, Sleep 5]))) =
              (snd w1 @ [LogDebug, Sleep 5]) @ Describe [name] # es2"
      and s2: "sleeps es2 \<le> r"
      by auto
    from again es2 es have "snd (snd (get_config_loop P name (Suc r) w)) =
        snd w @ Describe [name] # (es @ [LogDebug, Sleep 5] @ Describe [name] # es2)"
      by simp
    moreover from ns s2 have "sleeps (es @ [LogDebug, Sleep 5] @ Describe [name] # es2) \<le> Suc r"
      by (simp add: sleeps_def)
    ultimately show ?thesis by blast
  qed
qed










section \<open>The claims\<close>

text \<open>
  C5. Every record that \<^verbatim>\<open>get_config\<close> returns and that is not empty has the sixteen
  keys \<^verbatim>\<open>name\<close>, \<^verbatim>\<open>availability_zones\<close>, ..., \<^verbatim>\<open>scaling_policies\<close>,
  \<^verbatim>\<open>scheduled_actions\<close> in exactly this order, whatever the provider answers and
  however many passes of the loop it took.
\<close>

theorem get_config_key_order:
  assumes "fst (get_config P name w) = Inr ret" and "ret \<noteq> []"
  shows "map fst ret =
     [''name'', ''availability_zones'', ''default_cooldown'', ''desired_capacity'',
      ''health_check_period'', ''health_check_type'', ''launch_config_name'',
      ''load_balancers'', ''max_size'', ''min_size'', ''vpc_zone_identifier'', ''tags'',
      ''termination_policies'', ''suspended_processes'', ''scaling_policies'',
      ''scheduled_actions'']"
proof -
  from assms obtain w0 where "fst (try_body P name w0) = Inr ret"
    unfolding get_config_def using loop_result_from_try by blast
  then show ?thesis using assms(2) by (rule try_body_keys)
qed

theorem get_config_key_order_witness:
  "fst (get_config example_provider ''web-asg'' ((), [])) = Inr example_record
   \<and> example_record \<noteq> []
   \<and> map fst example_record =
     [''name'', ''availability_zones'', ''default_cooldown'', ''desired_capacity'',
      ''health_check_period'', ''health_check_type'', ''launch_config_name'',
      ''load_balancers'', ''max_size'', ''min_size'', ''vpc_zone_identifier'', ''tags'',
      ''termination_policies'', ''suspended_processes'', ''scaling_policies'',
      ''scheduled_actions'']"
proof -
  have run: "fst (get_config example_provider ''web-asg'' ((), [])) = Inr example_record"
    by (simp add: example_run)
  have ne: "example_record \<noteq> []"
    by (simp add: example_record_def)
  from get_config_key_order [OF run ne] run ne show ?thesis by simp
qed

text \<open>
  C6. When the describe operation finds no group for the name, \<^verbatim>\<open>get_config\<close> returns the
  empty record, not an exception. The describe call is the only event of the run: no
  sleep, no second pass, no line in the error log.
\<close>

theorem get_config_no_group:
  assumes "describe_auto_scaling_groups P s [name] = (Inr [], s')"
  shows "get_config P name (s, evs) = (Inr [], (s', evs @ [Describe [name]]))
         \<and> sleeps (evs @ [Describe [name]]) = sleeps evs
         \<and> describe_calls (evs @ [Describe [name]]) = Suc (describe_calls evs)"
  using assms
  by (simp add: get_config_def get_config_loop.simps try_body_def call_describe_def
      first_group_def emit_def sleeps_def describe_calls_def)

theorem get_config_no_group_witness:
  "describe_auto_scaling_groups (stub_provider [] [] []) () [''missing''] = (Inr [], ())
   \<and> get_config (stub_provider [] [] []) ''missing'' ((), []) =
       (Inr [], ((), [Describe [''missing'']]))
   \<and> sleeps ([] @ [Describe [''missing'']]) = sleeps []
   \<and> describe_calls ([] @ [Describe [''missing'']]) = Suc (describe_calls [])"
proof -
  have h: "describe_auto_scaling_groups (stub_provider [] [] []) () [''missing''] = (Inr [], ())"
    by (simp add: stub_provider_def)
  from get_config_no_group [OF h, of "[]"] h show ?thesis by simp
qed

text \<open>
  C10. Every record that \<^verbatim>\<open>get_config\<close> returns and that is not empty was built in the
  last pass of the loop, from the first group that the describe call of that pass
  returned. The \<^verbatim>\<open>VPCZoneIdentifier\<close> of this group is a string. When it is the empty
  string, the entry \<^verbatim>\<open>vpc_zone_identifier\<close> of the record is the list of one element,
  the empty string; the entry is never the empty list.
\<close>

theorem vpc_zone_identifier_empty_string:
  assumes "get_config P name w = (Inr ret, w')" and "ret \<noteq> []"
  shows "\<exists>s asg rest policies actions z.
     pass P name s (asg # rest) policies actions (fst w')
     \<and> map_of asg ''VPCZoneIdentifier'' = Some (PStr z)
     \<and> (z = [] \<longrightarrow> map_of ret ''vpc_zone_identifier'' = Some (PList [PStr []]))
     \<and> map_of ret ''vpc_zone_identifier'' \<noteq> Some (PList [])"
proof -
  from last_pass_vpc [OF assms] obtain s asg rest policies actions z where
    p: "pass P name s (asg # rest) policies actions (fst w')"
    and z: "map_of asg ''VPCZoneIdentifier'' = Some (PStr z)"
    and entry: "map_of ret ''vpc_zone_identifier'' = Some (PList (map PStr (split_on (CHR '','') z)))"
    by blast
  from entry have "z = [] \<longrightarrow> map_of ret ''vpc_zone_identifier'' = Some (PList [PStr []])"
    by simp
  moreover from entry have "map_of ret ''vpc_zone_identifier'' \<noteq> Some (PList [])"
    by (simp add: split_on_not_Nil)
  ultimately show ?thesis using p z by blast
qed

theorem vpc_zone_identifier_empty_string_witness:
  "get_config (stub_provider [group_with ''VPCZoneIdentifier'' (PStr [])] [] [example_action])
       ''web-asg'' ((), []) =
     (Inr (setitem example_record ''vpc_zone_identifier'' (PList [PStr []])),
      ((), [Describe [''web-asg''], GetAllPolicies ''web-asg'', GetAllScheduledActions ''web-asg'']))
   \<and> setitem example_record ''vpc_zone_identifier'' (PList [PStr []]) \<noteq> []
   \<and> map_of (group_with ''VPCZoneIdentifier'' (PStr [])) ''VPCZoneIdentifier'' = Some (PStr [])
   \<and> map_of (setitem example_record ''vpc_zone_identifier'' (PList [PStr []]))
        ''vpc_zone_identifier'' = Some (PList [PStr []])"
proof -
  have gen: "map_of r ''vpc_zone_identifier'' = Some (PList [PStr []])"
    if run: "get_config (stub_provider [g] [] [a]) n w = (Inr r, w')" and ne: "r \<noteq> []"
      and g: "map_of g ''VPCZoneIdentifier'' = Some (PStr [])"
    for g a n w r w'
  proof -
    from vpc_zone_identifier_empty_string [OF run ne] obtain s asg rest policies actions z where
      p: "pass (stub_provider [g] [] [a]) n s (asg # rest) policies actions (fst w')"
      and z: "map_of asg ''VPCZoneIdentifier'' = Some (PStr z)"
      and imp: "z = [] \<longrightarrow> map_of r ''vpc_zone_identifier'' = Some (PList [PStr []])"
      by blast
    from p have "asg = g" by (simp add: pass_stub)
    with z g have "z = []" by simp
    with imp show ?thesis by simp
  qed
  have h1: "get_config (stub_provider [group_with ''VPCZoneIdentifier'' (PStr [])] [] [example_action])
       ''web-asg'' ((), []) =
     (Inr (setitem example_record ''vpc_zone_identifier'' (PList [PStr []])),
      ((), [Describe [''web-asg''], GetAllPolicies ''web-asg'', GetAllScheduledActions ''web-asg'']))"
    by code_simp
  have h2: "setitem example_record ''vpc_zone_identifier'' (PList [PStr []]) \<noteq> []"
    by (rule setitem_not_Nil)
  have h3: "map_of (group_with ''VPCZoneIdentifier'' (PStr [])) ''VPCZoneIdentifier'' = Some (PStr [])"
    by (simp add: group_with_def map_of_setitem)
  show ?thesis
    by (intro conjI h1 h2 h3 gen [OF h1 h2 h3])
qed

text \<open>
  C7. The record that \<^verbatim>\<open>get_config\<close> returns was built from the first group of the last
  pass. When the \<^verbatim>\<open>SuspendedProcesses\<close> of this group are a list of objects whose
  \<^verbatim>\<open>ProcessName\<close> are strings, in any order, the entry \<^verbatim>\<open>suspended_processes\<close> of the
  record is the list of these names sorted: ascending in the lexicographic order of the
  code points, each name as many times as it came.
\<close>

theorem suspended_processes_sorted:
  assumes "get_config P name w = (Inr ret, w')" and "ret \<noteq> []"
  shows "\<exists>s asg rest policies actions v.
     pass P name s (asg # rest) policies actions (fst w')
     \<and> map_of asg ''SuspendedProcesses'' = Some v
     \<and> (\<forall>ds names. v = PList (map PDict ds) \<longrightarrow>
           map (\<lambda>d. map_of d ''ProcessName'') ds = map (\<lambda>n. Some (PStr n)) names \<longrightarrow>
           map_of ret ''suspended_processes'' = Some (PList (map PStr (sort names)))
           \<and> sorted (sort names)
           \<and> (\<forall>n. count_list (sort names) n = count_list names n))"
proof -
  from last_pass_suspended [OF assms] obtain s asg rest policies actions v sp where
    p: "pass P name s (asg # rest) policies actions (fst w')"
    and v: "map_of asg ''SuspendedProcesses'' = Some v"
    and sp: "suspended_value v = Inr sp"
    and entry: "map_of ret ''suspended_processes'' = Some sp"
    by blast
  have "map_of ret ''suspended_processes'' = Some (PList (map PStr (sort names)))
        \<and> sorted (sort names) \<and> (\<forall>n. count_list (sort names) n = count_list names n)"
    if "v = PList (map PDict ds)"
      and "map (\<lambda>d. map_of d ''ProcessName'') ds = map (\<lambda>n. Some (PStr n)) names"
    for ds names
    using suspended_value_names [OF that(2)] that(1) sp entry
    by (simp add: count_list_sort)
  with p v show ?thesis by blast
qed

theorem suspended_processes_sorted_witness:
  "get_config example_provider ''web-asg'' ((), []) =
     (Inr example_record,
      ((), [Describe [''web-asg''], GetAllPolicies ''web-asg'', GetAllScheduledActions ''web-asg'']))
   \<and> example_record \<noteq> []
   \<and> map_of example_group ''SuspendedProcesses'' =
       Some (PList (map PDict [[(''ProcessName'', PStr ''Launch'')],
                               [(''ProcessName'', PStr ''AddToLoadBalancer'')]]))
   \<and> map (\<lambda>d. map_of d ''ProcessName'')
        [[(''ProcessName'', PStr ''Launch'')], [(''ProcessName'', PStr ''AddToLoadBalancer'')]] =
       map (\<lambda>n. Some (PStr n)) [''Launch'', ''AddToLoadBalancer'']
   \<and> map_of example_record ''suspended_processes'' =
       Some (PList (map PStr (sort [''Launch'', ''AddToLoadBalancer''])))
   \<and> sort [''Launch'', ''AddToLoadBalancer''] = [''AddToLoadBalancer'', ''Launch'']"
proof -
  have gen: "map_of r ''suspended_processes'' = Some (PList (map PStr (sort names)))"
    if run: "get_config example_provider n w = (Inr r, w')" and ne: "r \<noteq> []"
      and g: "map_of example_group ''SuspendedProcesses'' = Some (PList (map PDict ds))"
      and names: "map (\<lambda>d. map_of d ''ProcessName'') ds = map (\<lambda>n. Some (PStr n)) names"
    for n w r w' ds names
  proof -
    from suspended_processes_sorted [OF run ne] obtain s asg rest policies actions v where
      p: "pass example_provider n s (asg # rest) policies actions (fst w')"
      and v: "map_of asg ''SuspendedProcesses'' = Some v"
      and imp: "\<forall>ds names. v = PList (map PDict ds) \<longrightarrow>
           map (\<lambda>d. map_of d ''ProcessName'') ds = map (\<lambda>n. Some (PStr n)) names \<longrightarrow>
           map_of r ''suspended_processes'' = Some (PList (map PStr (sort names)))
           \<and> sorted (sort names)
           \<and> (\<forall>n. count_list (sort names) n = count_list names n)"
      by blast
    from p have "asg = example_group" by (simp add: pass_example)
    with v g have "v = PList (map PDict ds)" by simp
    with imp names show ?thesis by blast
  qed
  have h2: "example_record \<noteq> []"
    by (simp add: example_record_def)
  have h3: "map_of example_group ''SuspendedProcesses'' =
       Some (PList (map PDict [[(''ProcessName'', PStr ''Launch'')],
                               [(''ProcessName'', PStr ''AddToLoadBalancer'')]]))"
    by (simp add: example_group_def)
  have h4: "map (\<lambda>d. map_of d ''ProcessName'')
        [[(''ProcessName'', PStr ''Launch'')], [(''ProcessName'', PStr ''AddToLoadBalancer'')]] =
       map (\<lambda>n. Some (PStr n)) [''Launch'', ''AddToLoadBalancer'']"
    by simp
  have srt: "sort [''Launch'', ''AddToLoadBalancer''] = [''AddToLoadBalancer'', ''Launch'']"
    by code_simp
  show ?thesis
    by (intro conjI example_run h2 h3 h4 srt gen [OF example_run h2 h3 h4])
qed

text \<open>
  C1, as the code has it. The record that \<^verbatim>\<open>get_config\<close> returns was built from the first
  group of the last pass, and the \<^verbatim>\<open>VPCZoneIdentifier\<close> of this group is a string. The
  entry \<^verbatim>\<open>vpc_zone_identifier\<close> of the record is the list of the pieces between the
  commas of this string: joined with commas they give the string back, and when the
  string was joined from a list of identifiers without commas, not empty, the entry is
  that list, same elements, same order.

  A list is not passed through. In a pass, with any number of retries left, in which
  the describe call returns a first group whose \<^verbatim>\<open>VPCZoneIdentifier\<close> is a list, the
  loop over the lookup table raises, the exception leaves \<^verbatim>\<open>get_config\<close> and no record
  is returned. The exception is the \<^verbatim>\<open>AttributeError\<close> of \<^verbatim>\<open>.split(",")\<close> on a list,
  unless one of the ten attributes that the table has before this one is missing in the
  group, in which case it is the \<^verbatim>\<open>KeyError\<close> of a missing attribute.
\<close>

theorem vpc_zone_identifier_split:
  "(get_config P name w = (Inr ret, w') \<longrightarrow> ret \<noteq> [] \<longrightarrow>
      (\<exists>s asg rest policies actions z.
         pass P name s (asg # rest) policies actions (fst w')
         \<and> map_of asg ''VPCZoneIdentifier'' = Some (PStr z)
         \<and> map_of ret ''vpc_zone_identifier'' = Some (PList (map PStr (split_on (CHR '','') z)))
         \<and> join (CHR '','') (split_on (CHR '','') z) = z
         \<and> (\<forall>xs. xs \<noteq> [] \<longrightarrow> (\<forall>x\<in>set xs. CHR '','' \<notin> set x) \<longrightarrow> z = join (CHR '','') xs
               \<longrightarrow> split_on (CHR '','') z = xs)))
   \<and> (describe_auto_scaling_groups P s0 [name] = (Inr (asg0 # rest0), s1) \<longrightarrow>
        map_of asg0 ''VPCZoneIdentifier'' = Some (PList xs0) \<longrightarrow>
        (\<exists>e. (\<forall>r. get_config_loop P name r (s0, evs) = (Inl e, (s1, evs @ [Describe [name]])))
           \<and> get_config P name (s0, evs) = (Inl e, (s1, evs @ [Describe [name]]))
           \<and> (e = AttributeError \<or> (\<exists>k. e = KeyError k \<and> map_of asg0 k = None))
           \<and> (list_all (\<lambda>k. map_of asg0 k \<noteq> None) (map snd (take 10 attr_key_lookup))
                \<longrightarrow> e = AttributeError)
           \<and> (\<not> list_all (\<lambda>k. map_of asg0 k \<noteq> None) (map snd (take 10 attr_key_lookup))
                \<longrightarrow> (\<exists>k. e = KeyError k \<and> map_of asg0 k = None))))"
proof (intro conjI impI)
  assume run: "get_config P name w = (Inr ret, w')" and ne: "ret \<noteq> []"
  from last_pass_vpc [OF run ne] obtain s asg rest policies actions z where
    p: "pass P name s (asg # rest) policies actions (fst w')"
    and z: "map_of asg ''VPCZoneIdentifier'' = Some (PStr z)"
    and entry: "map_of ret ''vpc_zone_identifier'' = Some (PList (map PStr (split_on (CHR '','') z)))"
    by blast
  have "join (CHR '','') (split_on (CHR '','') z) = z"
    by (rule join_split)
  moreover have "\<forall>xs. xs \<noteq> [] \<longrightarrow> (\<forall>x\<in>set xs. CHR '','' \<notin> set x) \<longrightarrow> z = join (CHR '','') xs
               \<longrightarrow> split_on (CHR '','') z = xs"
    by (simp add: split_join)
  ultimately show "\<exists>s asg rest policies actions z.
         pass P name s (asg # rest) policies actions (fst w')
         \<and> map_of asg ''VPCZoneIdentifier'' = Some (PStr z)
         \<and> map_of ret ''vpc_zone_identifier'' = Some (PList (map PStr (split_on (CHR '','') z)))
         \<and> join (CHR '','') (split_on (CHR '','') z) = z
         \<and> (\<forall>xs. xs \<noteq> [] \<longrightarrow> (\<forall>x\<in>set xs. CHR '','' \<notin> set x) \<longrightarrow> z = join (CHR '','') xs
               \<longrightarrow> split_on (CHR '','') z = xs)"
    using p z entry by blast
next
  assume d: "describe_auto_scaling_groups P s0 [name] = (Inr (asg0 # rest0), s1)"
    and l: "map_of asg0 ''VPCZoneIdentifier'' = Some (PList xs0)"
  from l have ne: "asg0 \<noteq> []" by (rule map_of_Some_not_Nil)
  from copy_attrs_native_list [OF l] obtain e where
    e: "copy_attrs asg0 attr_key_lookup [] = Inl e"
    and kind: "e = AttributeError \<or> (\<exists>k. e = KeyError k \<and> map_of asg0 k = None)"
    and attr: "list_all (\<lambda>k. map_of asg0 k \<noteq> None) (map snd (take 10 attr_key_lookup))
          \<longrightarrow> e = AttributeError"
    and miss: "\<not> list_all (\<lambda>k. map_of asg0 k \<noteq> None) (map snd (take 10 attr_key_lookup))
          \<longrightarrow> (\<exists>k. e = KeyError k \<and> map_of asg0 k = None)"
    by blast
  have loop: "get_config_loop P name r (s0, evs) = (Inl e, (s1, evs @ [Describe [name]]))" for r
    using d ne e by (rule get_config_loop_raise)
  then have "get_config P name (s0, evs) = (Inl e, (s1, evs @ [Describe [name]]))"
    by (simp add: get_config_def)
  with loop kind attr miss show "\<exists>e. (\<forall>r. get_config_loop P name r (s0, evs) = (Inl e, (s1, evs @ [Describe [name]])))
           \<and> get_config P name (s0, evs) = (Inl e, (s1, evs @ [Describe [name]]))
           \<and> (e = AttributeError \<or> (\<exists>k. e = KeyError k \<and> map_of asg0 k = None))
           \<and> (list_all (\<lambda>k. map_of asg0 k \<noteq> None) (map snd (take 10 attr_key_lookup))
                \<longrightarrow> e = AttributeError)
           \<and> (\<not> list_all (\<lambda>k. map_of asg0 k \<noteq> None) (map snd (take 10 attr_key_lookup))
                \<longrightarrow> (\<exists>k. e = KeyError k \<and> map_of asg0 k = None))"
    by blast
qed

theorem vpc_zone_identifier_split_witness:
  "get_config example_provider ''web-asg'' ((), []) =
     (Inr example_record,
      ((), [Describe [''web-asg''], GetAllPolicies ''web-asg'', GetAllScheduledActions ''web-asg'']))
   \<and> example_record \<noteq> []
   \<and> map_of example_group ''VPCZoneIdentifier'' = Some (PStr ''subnet-a,subnet-b'')
   \<and> [''subnet-a'', ''subnet-b''] \<noteq> []
   \<and> list_all (\<lambda>x. CHR '','' \<notin> set x) [''subnet-a'', ''subnet-b'']
   \<and> ''subnet-a,subnet-b'' = join (CHR '','') [''subnet-a'', ''subnet-b'']
   \<and> map_of example_record ''vpc_zone_identifier'' =
       Some (PList (map PStr [''subnet-a'', ''subnet-b'']))
   \<and> describe_auto_scaling_groups
        (stub_provider
           [group_with ''VPCZoneIdentifier'' (PList [PStr ''subnet-a'', PStr ''subnet-b''])]
           [] [example_action]) () [''web-asg''] =
       (Inr [group_with ''VPCZoneIdentifier'' (PList [PStr ''subnet-a'', PStr ''subnet-b''])], ())
   \<and> map_of (group_with ''VPCZoneIdentifier'' (PList [PStr ''subnet-a'', PStr ''subnet-b'']))
        ''VPCZoneIdentifier'' = Some (PList [PStr ''subnet-a'', PStr ''subnet-b''])
   \<and> list_all
        (\<lambda>k. map_of (group_with ''VPCZoneIdentifier'' (PList [PStr ''subnet-a'', PStr ''subnet-b'']))
               k \<noteq> None)
        (map snd (take 10 attr_key_lookup))
   \<and> get_config
        (stub_provider
           [group_with ''VPCZoneIdentifier'' (PList [PStr ''subnet-a'', PStr ''subnet-b''])]
           [] [example_action]) ''web-asg'' ((), []) =
       (Inl AttributeError, ((), [] @ [Describe [''web-asg'']]))
   \<and> describe_auto_scaling_groups
        (stub_provider [[(''VPCZoneIdentifier'', PList [PStr ''subnet-a''])]] [] [])
        () [''web-asg''] =
       (Inr [[(''VPCZoneIdentifier'', PList [PStr ''subnet-a''])]], ())
   \<and> map_of [(''VPCZoneIdentifier'', PList [PStr ''subnet-a''])] ''VPCZoneIdentifier'' =
       Some (PList [PStr ''subnet-a''])
   \<and> \<not> list_all (\<lambda>k. map_of [(''VPCZoneIdentifier'', PList [PStr ''subnet-a''])] k \<noteq> None)
          (map snd (take 10 attr_key_lookup))
   \<and> (\<exists>k. get_config
              (stub_provider [[(''VPCZoneIdentifier'', PList [PStr ''subnet-a''])]] [] [])
              ''web-asg'' ((), []) =
            (Inl (KeyError k), ((), [] @ [Describe [''web-asg'']]))
          \<and> map_of [(''VPCZoneIdentifier'', PList [PStr ''subnet-a''])] k = None)"
proof -
  have gen_c: "\<exists>k. get_config P n (s0, evs) = (Inl (KeyError k), (s1, evs @ [Describe [n]]))
                \<and> map_of asg0 k = None"
    if d: "describe_auto_scaling_groups P s0 [n] = (Inr (asg0 # rest0), s1)"
      and l: "map_of asg0 ''VPCZoneIdentifier'' = Some (PList xs0)"
      and a: "\<not> list_all (\<lambda>k. map_of asg0 k \<noteq> None) (map snd (take 10 attr_key_lookup))"
    for P :: "unit provider" and n s0 evs s1 asg0 rest0 xs0
  proof -
    from vpc_zone_identifier_split [THEN conjunct2, rule_format, OF d l]
    obtain e where
      run: "get_config P n (s0, evs) = (Inl e, (s1, evs @ [Describe [n]]))"
      and miss: "\<not> list_all (\<lambda>k. map_of asg0 k \<noteq> None) (map snd (take 10 attr_key_lookup))
                \<longrightarrow> (\<exists>k. e = KeyError k \<and> map_of asg0 k = None)"
      by blast
    from miss a obtain k where "e = KeyError k" "map_of asg0 k = None" by blast
    with run show ?thesis by blast
  qed
  have gen_a: "map_of r ''vpc_zone_identifier'' = Some (PList (map PStr xs))"
    if run: "get_config example_provider n w = (Inr r, w')" and ne: "r \<noteq> []"
      and g: "map_of example_group ''VPCZoneIdentifier'' = Some (PStr z)"
      and xs: "xs \<noteq> []" "list_all (\<lambda>x. CHR '','' \<notin> set x) xs" "z = join (CHR '','') xs"
    for n w r w' z xs
  proof -
    from vpc_zone_identifier_split [THEN conjunct1, rule_format, OF run ne]
    obtain s asg rest policies actions z' where
      p: "pass example_provider n s (asg # rest) policies actions (fst w')"
      and z': "map_of asg ''VPCZoneIdentifier'' = Some (PStr z')"
      and entry: "map_of r ''vpc_zone_identifier'' = Some (PList (map PStr (split_on (CHR '','') z')))"
      and uniq: "\<forall>xs. xs \<noteq> [] \<longrightarrow> (\<forall>x\<in>set xs. CHR '','' \<notin> set x) \<longrightarrow> z' = join (CHR '','') xs
               \<longrightarrow> split_on (CHR '','') z' = xs"
      by blast
    from p have "asg = example_group" by (simp add: pass_example)
    with z' g have "z' = z" by simp
    with uniq xs have "split_on (CHR '','') z' = xs"
      by (simp add: list_all_iff)
    with entry show ?thesis by simp
  qed
  have gen_b: "get_config P n (s0, evs) = (Inl AttributeError, (s1, evs @ [Describe [n]]))"
    if d: "describe_auto_scaling_groups P s0 [n] = (Inr (asg0 # rest0), s1)"
      and l: "map_of asg0 ''VPCZoneIdentifier'' = Some (PList xs0)"
      and a: "list_all (\<lambda>k. map_of asg0 k \<noteq> None) (map snd (take 10 attr_key_lookup))"
    for P :: "unit provider" and n s0 evs s1 asg0 rest0 xs0
  proof -
    from vpc_zone_identifier_split [THEN conjunct2, rule_format, OF d l]
    obtain e where
      run: "get_config P n (s0, evs) = (Inl e, (s1, evs @ [Describe [n]]))"
      and attr: "list_all (\<lambda>k. map_of asg0 k \<noteq> None) (map snd (take 10 attr_key_lookup))
                \<longrightarrow> e = AttributeError"
      by blast
    from attr a have "e = AttributeError" by simp
    with run show ?thesis by simp
  qed
  have h2: "example_record \<noteq> []"
    by (simp add: example_record_def)
  have h3: "map_of example_group ''VPCZoneIdentifier'' = Some (PStr ''subnet-a,subnet-b'')"
    by code_simp
  have h4: "[''subnet-a'', ''subnet-b''] \<noteq> []"
    by code_simp
  have h5: "list_all (\<lambda>x. CHR '','' \<notin> set x) [''subnet-a'', ''subnet-b'']"
    by code_simp
  have h6: "''subnet-a,subnet-b'' = join (CHR '','') [''subnet-a'', ''subnet-b'']"
    by code_simp
  have k1: "describe_auto_scaling_groups
        (stub_provider
           [group_with ''VPCZoneIdentifier'' (PList [PStr ''subnet-a'', PStr ''subnet-b''])]
           [] [example_action]) () [''web-asg''] =
       (Inr [group_with ''VPCZoneIdentifier'' (PList [PStr ''subnet-a'', PStr ''subnet-b''])], ())"
    by (simp add: stub_provider_def)
  have k2: "map_of (group_with ''VPCZoneIdentifier'' (PList [PStr ''subnet-a'', PStr ''subnet-b'']))
        ''VPCZoneIdentifier'' = Some (PList [PStr ''subnet-a'', PStr ''subnet-b''])"
    by (simp add: group_with_def map_of_setitem)
  have k3: "list_all
        (\<lambda>k. map_of (group_with ''VPCZoneIdentifier'' (PList [PStr ''subnet-a'', PStr ''subnet-b'']))
               k \<noteq> None)
        (map snd (take 10 attr_key_lookup))"
    by code_simp
  have m1: "describe_auto_scaling_groups
        (stub_provider [[(''VPCZoneIdentifier'', PList [PStr ''subnet-a''])]] [] [])
        () [''web-asg''] =
       (Inr [[(''VPCZoneIdentifier'', PList [PStr ''subnet-a''])]], ())"
    by (simp add: stub_provider_def)
  have m2: "map_of [(''VPCZoneIdentifier'', PList [PStr ''subnet-a''])] ''VPCZoneIdentifier'' =
       Some (PList [PStr ''subnet-a''])"
    by simp
  have m3: "\<not> list_all (\<lambda>k. map_of [(''VPCZoneIdentifier'', PList [PStr ''subnet-a''])] k \<noteq> None)
          (map snd (take 10 attr_key_lookup))"
    by code_simp
  show ?thesis
    by (intro conjI example_run h2 h3 h4 h5 h6 gen_a [OF example_run h2 h3 h4 h5 h6] k1 k2 k3
        gen_b [OF k1 k2 k3] m1 m2 m3 gen_c [OF m1 m2 m3])
qed

text \<open>
  C1 as stated also promises that a list of strings is passed through. The code calls
  \<^verbatim>\<open>.split(",")\<close> on whatever it gets, and a list has no such method: for the example
  group with the two subnets as a list, \<^verbatim>\<open>get_config\<close> raises \<^verbatim>\<open>AttributeError\<close> and
  returns no record.
\<close>

theorem vpc_zone_identifier_native_list_raises:
  "fst (get_config
          (stub_provider
             [group_with ''VPCZoneIdentifier'' (PList [PStr ''subnet-a'', PStr ''subnet-b''])]
             [] [example_action])
          ''web-asg'' ((), [])) = Inl AttributeError"
  by code_simp

text \<open>
  C8. The record that \<^verbatim>\<open>get_config\<close> returns was built from the answers of the last
  pass. Its entry \<^verbatim>\<open>scheduled_actions\<close> is a dictionary whose keys are the names of the
  actions that the provider returned. Under a name stands the dictionary of the last
  action of that name: \<^verbatim>\<open>start_time\<close> is the \<^verbatim>\<open>isoformat\<close> of the action's start
  time, which is a datetime; \<^verbatim>\<open>end_time\<close> is the \<^verbatim>\<open>isoformat\<close> of the end time when
  the action has one, and \<^verbatim>\<open>None\<close> otherwise. The \<^verbatim>\<open>isoformat\<close> of a datetime is an
  ISO-8601 string.
\<close>

theorem scheduled_actions_by_name:
  assumes "get_config P name w = (Inr ret, w')" and "ret \<noteq> []"
  shows "\<exists>s asg rest policies actions d.
     pass P name s (asg # rest) policies actions (fst w')
     \<and> map_of ret ''scheduled_actions'' = Some (PDict d)
     \<and> (\<forall>m. (map_of d m = None) = (m \<notin> action_name ` set actions))
     \<and> (\<forall>n a. find (\<lambda>x. action_name x = n) (rev actions) = Some a \<longrightarrow>
           (\<exists>c ts.
              int_py (action_desired_capacity a) = Inr c
              \<and> action_start_time a = PDatetime ts
              \<and> (truthy (action_end_time a) \<longrightarrow> (\<exists>te. action_end_time a = PDatetime te))
              \<and> map_of d n =
                  Some (PDict [(''min_size'', action_min_size a),
                               (''max_size'', action_max_size a),
                               (''desired_capacity'', PInt c),
                               (''start_time'', PStr (isoformat ts)),
                               (''end_time'', case action_end_time a of
                                                PDatetime te \<Rightarrow> PStr (isoformat te)
                                              | _ \<Rightarrow> PNone),
                               (''recurrence'', action_recurrence a)])))
     \<and> (\<forall>t. valid_datetime t \<longrightarrow> iso8601 (isoformat t))"
proof -
  from last_pass_actions [OF assms] obtain s asg rest policies actions d where
    p: "pass P name s (asg # rest) policies actions (fst w')"
    and d: "scheduled_actions actions [] = Inr d"
    and ret: "map_of ret ''scheduled_actions'' = Some (PDict d)"
    by blast
  have entry: "\<exists>c ts.
              int_py (action_desired_capacity a) = Inr c
              \<and> action_start_time a = PDatetime ts
              \<and> (truthy (action_end_time a) \<longrightarrow> (\<exists>te. action_end_time a = PDatetime te))
              \<and> map_of d n =
                  Some (PDict [(''min_size'', action_min_size a),
                               (''max_size'', action_max_size a),
                               (''desired_capacity'', PInt c),
                               (''start_time'', PStr (isoformat ts)),
                               (''end_time'', case action_end_time a of
                                                PDatetime te \<Rightarrow> PStr (isoformat te)
                                              | _ \<Rightarrow> PNone),
                               (''recurrence'', action_recurrence a)])"
    if f: "find (\<lambda>x. action_name x = n) (rev actions) = Some a" for n a
  proof -
    from find_SomeD [OF f] have "a \<in> set actions" by simp
    from scheduled_actions_all [OF d this] obtain v where v: "action_dict a = Inr v" by blast
    with scheduled_actions_lookup [OF d, of n] f have look: "map_of d n = Some v" by simp
    from action_dict_result [OF v] look show ?thesis by blast
  qed
  have keys: "\<forall>m. (map_of d m = None) = (m \<notin> action_name ` set actions)"
    using scheduled_actions_keys [OF d] by blast
  have iso: "\<forall>t. valid_datetime t \<longrightarrow> iso8601 (isoformat t)"
    using isoformat_iso8601 by blast
  from p ret keys entry iso show ?thesis by blast
qed

theorem scheduled_actions_by_name_witness:
  "get_config (stub_provider [example_group] [] [example_action, example_action_later])
      ''web-asg'' ((), []) =
     (Inr example_record_later,
      ((), [Describe [''web-asg''], GetAllPolicies ''web-asg'', GetAllScheduledActions ''web-asg'']))
   \<and> example_record_later \<noteq> []
   \<and> find (\<lambda>x. action_name x = ''nightly-scale'') (rev [example_action, example_action_later])
       = Some example_action_later
   \<and> truthy (action_end_time example_action_later)
   \<and> valid_datetime example_end_time
   \<and> (\<exists>d c ts te.
        map_of example_record_later ''scheduled_actions'' = Some (PDict d)
        \<and> int_py (action_desired_capacity example_action_later) = Inr c
        \<and> action_start_time example_action_later = PDatetime ts
        \<and> action_end_time example_action_later = PDatetime te
        \<and> map_of d ''nightly-scale'' =
            Some (PDict [(''min_size'', action_min_size example_action_later),
                         (''max_size'', action_max_size example_action_later),
                         (''desired_capacity'', PInt c),
                         (''start_time'', PStr (isoformat ts)),
                         (''end_time'', PStr (isoformat te)),
                         (''recurrence'', action_recurrence example_action_later)]))
   \<and> iso8601 (isoformat example_end_time)
   \<and> isoformat example_end_time = ''2020-12-31T23:59:59.001500''"
proof -
  have gen: "\<exists>d c ts te.
        map_of r ''scheduled_actions'' = Some (PDict d)
        \<and> int_py (action_desired_capacity a) = Inr c
        \<and> action_start_time a = PDatetime ts
        \<and> action_end_time a = PDatetime te
        \<and> map_of d m =
            Some (PDict [(''min_size'', action_min_size a),
                         (''max_size'', action_max_size a),
                         (''desired_capacity'', PInt c),
                         (''start_time'', PStr (isoformat ts)),
                         (''end_time'', PStr (isoformat te)),
                         (''recurrence'', action_recurrence a)])"
    if run: "get_config (stub_provider gs ps acts) n w = (Inr r, w')" and ne: "r \<noteq> []"
      and f: "find (\<lambda>x. action_name x = m) (rev acts) = Some a"
      and tr: "truthy (action_end_time a)"
    for gs ps acts n w r w' m a
  proof -
    from scheduled_actions_by_name [OF run ne] obtain s asg rest policies actions d where
      p: "pass (stub_provider gs ps acts) n s (asg # rest) policies actions (fst w')"
      and d: "map_of r ''scheduled_actions'' = Some (PDict d)"
      and entry: "\<forall>n a. find (\<lambda>x. action_name x = n) (rev actions) = Some a \<longrightarrow>
           (\<exists>c ts.
              int_py (action_desired_capacity a) = Inr c
              \<and> action_start_time a = PDatetime ts
              \<and> (truthy (action_end_time a) \<longrightarrow> (\<exists>te. action_end_time a = PDatetime te))
              \<and> map_of d n =
                  Some (PDict [(''min_size'', action_min_size a),
                               (''max_size'', action_max_size a),
                               (''desired_capacity'', PInt c),
                               (''start_time'', PStr (isoformat ts)),
                               (''end_time'', case action_end_time a of
                                                PDatetime te \<Rightarrow> PStr (isoformat te)
                                              | _ \<Rightarrow> PNone),
                               (''recurrence'', action_recurrence a)]))"
      by blast
    from p have "actions = acts" by (simp add: pass_stub)
    with entry f obtain c ts where
      c: "int_py (action_desired_capacity a) = Inr c"
      and ts: "action_start_time a = PDatetime ts"
      and te: "truthy (action_end_time a) \<longrightarrow> (\<exists>te. action_end_time a = PDatetime te)"
      and look: "map_of d m =
                  Some (PDict [(''min_size'', action_min_size a),
                               (''max_size'', action_max_size a),
                               (''desired_capacity'', PInt c),
                               (''start_time'', PStr (isoformat ts)),
                               (''end_time'', case action_end_time a of
                                                PDatetime te \<Rightarrow> PStr (isoformat te)
                                              | _ \<Rightarrow> PNone),
                               (''recurrence'', action_recurrence a)])"
      by blast
    from te tr obtain te' where te': "action_end_time a = PDatetime te'" by blast
    with look have "map_of d m =
            Some (PDict [(''min_size'', action_min_size a),
                         (''max_size'', action_max_size a),
                         (''desired_capacity'', PInt c),
                         (''start_time'', PStr (isoformat ts)),
                         (''end_time'', PStr (isoformat te')),
                         (''recurrence'', action_recurrence a)])"
      by simp
    with d c ts te' show ?thesis by blast
  qed
  have gen_iso: "iso8601 (isoformat t)"
    if run: "get_config (stub_provider gs ps acts) n w = (Inr r, w')" and ne: "r \<noteq> []"
      and va: "valid_datetime t"
    for gs ps acts n w r w' t
    using scheduled_actions_by_name [OF run ne] va by blast
  have h2: "example_record_later \<noteq> []"
    unfolding example_record_later_def by (rule setitem_not_Nil)
  have h3: "find (\<lambda>x. action_name x = ''nightly-scale'') (rev [example_action, example_action_later])
       = Some example_action_later"
    by (simp add: example_action_def example_action_later_def)
  have h4: "truthy (action_end_time example_action_later)"
    by (simp add: example_action_later_def)
  have h5: "valid_datetime example_end_time"
    by (simp add: valid_datetime_def example_end_time_def)
  have str: "isoformat example_end_time = ''2020-12-31T23:59:59.001500''"
    by code_simp
  show ?thesis
    by (intro conjI example_run_later h2 h3 h4 h5 gen [OF example_run_later h2 h3 h4]
        gen_iso [OF example_run_later h2 h5] str)
qed







text \<open>
  C3, as the code has it. The two fetches stand inside the same \<^verbatim>\<open>try\<close> as the describe
  call, so the handler treats an exception of theirs as it treats one of the describe
  call. In a pass in which the fetch of the policies or of the actions raises \<open>e\<close>:
  when \<open>e\<close> is the throttling error and retries are left, \<^verbatim>\<open>get_config\<close> logs, sleeps
  and starts the next pass with one retry less; when \<open>e\<close> is another
  \<^verbatim>\<open>BotoServerError\<close>, or the throttling error with no retry left, it is written to the
  error log and the empty record is returned; only when \<open>e\<close> is no \<^verbatim>\<open>BotoServerError\<close>
  does it leave \<^verbatim>\<open>get_config\<close>.
\<close>

theorem fetch_errors_are_handled:
  assumes "fetch_raises P name s e s' tr"
  shows "(e = throttling \<longrightarrow>
            get_config_loop P name (Suc r) (s, evs) =
              get_config_loop P name r (s', evs @ tr @ [LogDebug, Sleep 5])
            \<and> get_config P name (s, evs) =
                get_config_loop P name 29 (s', evs @ tr @ [LogDebug, Sleep 5])
            \<and> get_config_loop P name 0 (s, evs) = (Inr [], (s', evs @ tr @ [LogError e])))
       \<and> (\<forall>code. e = BotoServerError code \<longrightarrow> code \<noteq> Some ''Throttling'' \<longrightarrow>
            get_config_loop P name r (s, evs) = (Inr [], (s', evs @ tr @ [LogError e]))
            \<and> get_config P name (s, evs) = (Inr [], (s', evs @ tr @ [LogError e])))
       \<and> ((\<forall>code. e \<noteq> BotoServerError code) \<longrightarrow>
            get_config_loop P name r (s, evs) = (Inl e, (s', evs @ tr))
            \<and> get_config P name (s, evs) = (Inl e, (s', evs @ tr)))"
proof -
  from assms have tb: "try_body P name (s, evs) = (Inl e, (s', evs @ tr))"
    by (rule try_body_fetch_raises)
  have a: "get_config_loop P name (Suc r) (s, evs) =
              get_config_loop P name r (s', evs @ tr @ [LogDebug, Sleep 5])"
    if "e = throttling" for r
    using tb that get_config_loop_retry [of P name "(s, evs)" "(s', evs @ tr)" r] by simp
  have b: "get_config_loop P name r (s, evs) = (Inr [], (s', evs @ tr @ [LogError e]))"
    if "e = BotoServerError code" "r = 0 \<or> code \<noteq> Some ''Throttling''" for r code
    using tb that get_config_loop_give_up [of P name "(s, evs)" code "(s', evs @ tr)" r] by simp
  have c: "get_config_loop P name r (s, evs) = (Inl e, (s', evs @ tr))"
    if "\<forall>code. e \<noteq> BotoServerError code" for r
    using tb that by (simp add: get_config_loop_propagate)
  show ?thesis
    using a [of r] a [of 29] b [of _ 0] b [of _ r] b [of _ 30] c [of r] c [of 30]
    by (auto simp: get_config_def throttling_def numeral_eq_Suc)
qed

theorem fetch_errors_are_handled_witness:
  "fetch_raises (flaky_provider throttling [example_group] [] [example_action]) ''web-asg''
      (0, 0, 1) throttling (0, 0, 0)
      [Describe [''web-asg''], GetAllPolicies ''web-asg'', GetAllScheduledActions ''web-asg'']
   \<and> get_config (flaky_provider throttling [example_group] [] [example_action]) ''web-asg''
        ((0, 0, 1), []) =
       get_config_loop (flaky_provider throttling [example_group] [] [example_action]) ''web-asg'' 29
         ((0, 0, 0),
          [] @ [Describe [''web-asg''], GetAllPolicies ''web-asg'',
                GetAllScheduledActions ''web-asg''] @ [LogDebug, Sleep 5])
   \<and> fetch_raises (flaky_provider access_denied [example_group] [] [example_action]) ''web-asg''
      (0, 1, 0) access_denied (0, 0, 0) [Describe [''web-asg''], GetAllPolicies ''web-asg'']
   \<and> access_denied = BotoServerError (Some ''AccessDenied'')
   \<and> Some ''AccessDenied'' \<noteq> Some ''Throttling''
   \<and> get_config (flaky_provider access_denied [example_group] [] [example_action]) ''web-asg''
        ((0, 1, 0), []) =
       (Inr [], ((0, 0, 0),
                 [] @ [Describe [''web-asg''], GetAllPolicies ''web-asg'']
                    @ [LogError access_denied]))
   \<and> fetch_raises (flaky_provider timed_out [example_group] [] [example_action]) ''web-asg''
      (0, 1, 0) timed_out (0, 0, 0) [Describe [''web-asg''], GetAllPolicies ''web-asg'']
   \<and> list_all (\<lambda>code. timed_out \<noteq> BotoServerError code) [None, Some ''Throttling'']
   \<and> get_config (flaky_provider timed_out [example_group] [] [example_action]) ''web-asg''
        ((0, 1, 0), []) =
       (Inl timed_out, ((0, 0, 0), [] @ [Describe [''web-asg''], GetAllPolicies ''web-asg'']))"
proof -
  have gen_a: "get_config P n (s, evs) = get_config_loop P n 29 (s', evs @ tr @ [LogDebug, Sleep 5])"
    if "fetch_raises P n s throttling s' tr"
    for P :: "(nat \<times> nat \<times> nat) provider" and n s evs s' tr
    using fetch_errors_are_handled [OF that] by blast
  have gen_b: "get_config P n (s, evs) = (Inr [], (s', evs @ tr @ [LogError e]))"
    if "fetch_raises P n s e s' tr" "e = BotoServerError code" "code \<noteq> Some ''Throttling''"
    for P :: "(nat \<times> nat \<times> nat) provider" and n s evs s' tr e code
    using fetch_errors_are_handled [OF that(1)] that(2,3) by blast
  have gen_c: "get_config P n (s, evs) = (Inl (OtherException x), (s', evs @ tr))"
    if "fetch_raises P n s (OtherException x) s' tr"
    for P :: "(nat \<times> nat \<times> nat) provider" and n s evs s' tr x
  proof -
    have "\<forall>code. OtherException x \<noteq> BotoServerError code" by simp
    with fetch_errors_are_handled [OF that] show ?thesis by blast
  qed
  have h1: "fetch_raises (flaky_provider throttling [example_group] [] [example_action]) ''web-asg''
      (0, 0, 1) throttling (0, 0, 0)
      [Describe [''web-asg''], GetAllPolicies ''web-asg'', GetAllScheduledActions ''web-asg'']"
    by code_simp
  have h2: "fetch_raises (flaky_provider access_denied [example_group] [] [example_action]) ''web-asg''
      (0, 1, 0) access_denied (0, 0, 0) [Describe [''web-asg''], GetAllPolicies ''web-asg'']"
    by code_simp
  have h3: "access_denied = BotoServerError (Some ''AccessDenied'')"
    by (simp add: access_denied_def)
  have h4: "Some ''AccessDenied'' \<noteq> Some ''Throttling''"
    by simp
  have h5: "fetch_raises (flaky_provider timed_out [example_group] [] [example_action]) ''web-asg''
      (0, 1, 0) timed_out (0, 0, 0) [Describe [''web-asg''], GetAllPolicies ''web-asg'']"
    by code_simp
  have h6: "list_all (\<lambda>code. timed_out \<noteq> BotoServerError code) [None, Some ''Throttling'']"
    by (simp add: timed_out_def)
  show ?thesis
    by (intro conjI h1 gen_a [OF h1] h2 h3 h4 gen_b [OF h2 h3 h4] h5 h6
        gen_c [OF h5 [unfolded timed_out_def], folded timed_out_def])
qed

text \<open>
  C3 as stated promises that a provider error of the two fetches leaves \<^verbatim>\<open>get_config\<close>.
  When the fetch of the policies is refused with the provider error \<^verbatim>\<open>AccessDenied\<close>,
  \<^verbatim>\<open>get_config\<close> writes it to the error log and returns the empty record; when the
  fetch of the actions is throttled once, \<^verbatim>\<open>get_config\<close> sleeps, runs all three calls
  again and returns the record.
\<close>

theorem policy_error_gives_empty_record:
  "get_config (flaky_provider access_denied [example_group] [] [example_action]) ''web-asg''
      ((0, 1, 0), []) =
     (Inr [], ((0, 0, 0),
               [Describe [''web-asg''], GetAllPolicies ''web-asg'', LogError access_denied]))
   \<and> get_config (flaky_provider throttling [example_group] [] [example_action]) ''web-asg''
        ((0, 0, 1), []) =
       (Inr example_record,
        ((0, 0, 0),
         [Describe [''web-asg''], GetAllPolicies ''web-asg'', GetAllScheduledActions ''web-asg'',
          LogDebug, Sleep 5,
          Describe [''web-asg''], GetAllPolicies ''web-asg'', GetAllScheduledActions ''web-asg'']))"
  by code_simp

text \<open>
  C9. The counter \<^verbatim>\<open>retries\<close> is the only one, and every throttling error that the
  handler catches takes one from it, whichever call raised it. In a pass in which the
  fetch of the policies or of the actions is throttled, \<^verbatim>\<open>get_config\<close> writes the debug
  line, sleeps five seconds and goes on as a loop with one retry less, exactly as when
  the describe call is throttled; with no retry left it writes the error and returns
  the empty record. What it goes on with does not depend on the group that the
  describe call had returned. Every pass, so also the one after the sleep, starts with
  the describe call. And one call of \<^verbatim>\<open>get_config\<close> never sleeps more than 30 times.
\<close>

theorem retry_budget_is_shared:
  "(fetch_raises P name s throttling s' tr \<longrightarrow>
      get_config_loop P name (Suc r) (s, evs) =
        get_config_loop P name r (s', evs @ tr @ [LogDebug, Sleep 5])
      \<and> get_config_loop P name 0 (s, evs) = (Inr [], (s', evs @ tr @ [LogError throttling])))
   \<and> (describe_auto_scaling_groups P s [name] = (Inl throttling, s') \<longrightarrow>
      get_config_loop P name (Suc r) (s, evs) =
        get_config_loop P name r (s', evs @ [Describe [name]] @ [LogDebug, Sleep 5])
      \<and> get_config_loop P name 0 (s, evs) =
          (Inr [], (s', evs @ [Describe [name]] @ [LogError throttling])))
   \<and> get_config P name w = get_config_loop P name 30 w
   \<and> (\<exists>es. snd (snd (get_config_loop P name r w)) = snd w @ Describe [name] # es
            \<and> sleeps es \<le> r)
   \<and> sleeps (snd (snd (get_config P name w))) \<le> sleeps (snd w) + 30"
proof (intro conjI impI)
  assume "fetch_raises P name s throttling s' tr"
  then have tb: "try_body P name (s, evs) = (Inl throttling, (s', evs @ tr))"
    by (rule try_body_fetch_raises)
  from get_config_loop_retry [OF tb]
  show "get_config_loop P name (Suc r) (s, evs) =
        get_config_loop P name r (s', evs @ tr @ [LogDebug, Sleep 5])"
    by simp
  from tb have "try_body P name (s, evs) = (Inl (BotoServerError (Some ''Throttling'')), (s', evs @ tr))"
    by (simp add: throttling_def)
  from get_config_loop_give_up [OF this, of 0]
  show "get_config_loop P name 0 (s, evs) = (Inr [], (s', evs @ tr @ [LogError throttling]))"
    by (simp add: throttling_def)
next
  assume "describe_auto_scaling_groups P s [name] = (Inl throttling, s')"
  then have tb: "try_body P name (s, evs) = (Inl throttling, (s', evs @ [Describe [name]]))"
    by (rule try_body_describe_raises)
  from get_config_loop_retry [OF tb]
  show "get_config_loop P name (Suc r) (s, evs) =
        get_config_loop P name r (s', evs @ [Describe [name]] @ [LogDebug, Sleep 5])"
    by simp
  from tb have "try_body P name (s, evs) =
      (Inl (BotoServerError (Some ''Throttling'')), (s', evs @ [Describe [name]]))"
    by (simp add: throttling_def)
  from get_config_loop_give_up [OF this, of 0]
  show "get_config_loop P name 0 (s, evs) =
          (Inr [], (s', evs @ [Describe [name]] @ [LogError throttling]))"
    by (simp add: throttling_def)
next
  show "get_config P name w = get_config_loop P name 30 w"
    by (rule get_config_def)
next
  show "\<exists>es. snd (snd (get_config_loop P name r w)) = snd w @ Describe [name] # es \<and> sleeps es \<le> r"
    by (rule get_config_loop_events)
next
  from get_config_loop_events [of P name 30 w] obtain es where
    "snd (snd (get_config_loop P name 30 w)) = snd w @ Describe [name] # es" and "sleeps es \<le> 30"
    by blast
  then show "sleeps (snd (snd (get_config P name w))) \<le> sleeps (snd w) + 30"
    by (simp add: get_config_def sleeps_def)
qed

theorem retry_budget_is_shared_witness:
  "fetch_raises (flaky_provider throttling [example_group] [] [example_action]) ''web-asg''
      (0, 1, 0) throttling (0, 0, 0) [Describe [''web-asg''], GetAllPolicies ''web-asg'']
   \<and> get_config_loop (flaky_provider throttling [example_group] [] [example_action]) ''web-asg''
        (Suc 29) ((0, 1, 0), []) =
       get_config_loop (flaky_provider throttling [example_group] [] [example_action]) ''web-asg''
         29 ((0, 0, 0), [] @ [Describe [''web-asg''], GetAllPolicies ''web-asg'']
                            @ [LogDebug, Sleep 5])
   \<and> describe_auto_scaling_groups (flaky_provider throttling [example_group] [] [example_action])
        (1, 0, 0) [''web-asg''] = (Inl throttling, (0, 0, 0))
   \<and> get_config_loop (flaky_provider throttling [example_group] [] [example_action]) ''web-asg''
        (Suc 29) ((1, 0, 0), []) =
       get_config_loop (flaky_provider throttling [example_group] [] [example_action]) ''web-asg''
         29 ((0, 0, 0), [] @ [Describe [''web-asg'']] @ [LogDebug, Sleep 5])
   \<and> get_config (flaky_provider throttling [example_group] [] [example_action]) ''web-asg''
        ((1, 1, 1), []) =
       (Inr example_record,
        ((0, 0, 0),
         [Describe [''web-asg''], LogDebug, Sleep 5,
          Describe [''web-asg''], GetAllPolicies ''web-asg'', LogDebug, Sleep 5,
          Describe [''web-asg''], GetAllPolicies ''web-asg'', GetAllScheduledActions ''web-asg'',
          LogDebug, Sleep 5,
          Describe [''web-asg''], GetAllPolicies ''web-asg'', GetAllScheduledActions ''web-asg'']))"
proof -
  have gen_a: "get_config_loop P n (Suc r) (s, evs) =
        get_config_loop P n r (s', evs @ tr @ [LogDebug, Sleep 5])"
    if "fetch_raises P n s throttling s' tr"
    for P :: "(nat \<times> nat \<times> nat) provider" and n s evs s' tr r
    using retry_budget_is_shared [THEN conjunct1, rule_format, OF that] by (rule conjunct1)
  have gen_b: "get_config_loop P n (Suc r) (s, evs) =
        get_config_loop P n r (s', evs @ [Describe [n]] @ [LogDebug, Sleep 5])"
    if "describe_auto_scaling_groups P s [n] = (Inl throttling, s')"
    for P :: "(nat \<times> nat \<times> nat) provider" and n s evs s' r
    using retry_budget_is_shared [THEN conjunct2, THEN conjunct1, rule_format, OF that]
    by (rule conjunct1)
  have h1: "fetch_raises (flaky_provider throttling [example_group] [] [example_action]) ''web-asg''
      (0, 1, 0) throttling (0, 0, 0) [Describe [''web-asg''], GetAllPolicies ''web-asg'']"
    by code_simp
  have h2: "describe_auto_scaling_groups (flaky_provider throttling [example_group] [] [example_action])
        (1, 0, 0) [''web-asg''] = (Inl throttling, (0, 0, 0))"
    by (simp add: flaky_provider_def)
  have run: "get_config (flaky_provider throttling [example_group] [] [example_action]) ''web-asg''
        ((1, 1, 1), []) =
       (Inr example_record,
        ((0, 0, 0),
         [Describe [''web-asg''], LogDebug, Sleep 5,
          Describe [''web-asg''], GetAllPolicies ''web-asg'', LogDebug, Sleep 5,
          Describe [''web-asg''], GetAllPolicies ''web-asg'', GetAllScheduledActions ''web-asg'',
          LogDebug, Sleep 5,
          Describe [''web-asg''], GetAllPolicies ''web-asg'', GetAllScheduledActions ''web-asg'']))"
    by code_simp
  show ?thesis
    by (intro conjI h1 gen_a [OF h1] h2 gen_b [OF h2] run)
qed

end
